theory Spec2Isabelle
  imports Complex_Main "HOL-Library.Monad_Syntax"
begin

section \<open>Data model of fontTools.misc.bezierTools\<close>

text \<open>
  Coordinates are modelled as exact real numbers: every statement below is about the
  arithmetic the code performs, carried out without rounding, except where a definition
  is named \<open>_double\<close> and rounds every operation as binary64 does. A point is a 2D tuple, a
  segment a sequence of points, and a Python exception is a value of \<open>error\<close>, returned
  on the left of a sum. A private function \<open>_f\<close> of the module is named \<open>f'\<close>.
\<close>

type_synonym point = "real \<times> real"

type_synonym bounds = "real \<times> real \<times> real \<times> real"

datatype error =
  ValueError | TypeError | NameError | IndexError | RecursionError | ZeroDivisionError

record Intersection =
  pt :: point
  t1 :: real
  t2 :: real

definition epsilonDigits :: nat where
  "epsilonDigits = 6"

definition epsilon :: real where
  "epsilon = 1 / 10 ^ 10"

section \<open>Equation solvers\<close>

text \<open>
  \<open>solveQuadratic\<close>: the guard \<open>DD >= 0.0\<close> protects \<open>sqrt\<close>, and both divisions
  have a divisor that is at least \<open>epsilon\<close> in magnitude.
\<close>

definition solveQuadratic :: "real \<Rightarrow> real \<Rightarrow> real \<Rightarrow> real list" where
  "solveQuadratic a b c =
     (if \<bar>a\<bar> < epsilon then
        (if \<bar>b\<bar> < epsilon then [] else [- c / b])
      else
        (let DD = b * b - 4 * a * c in
         if DD \<ge> 0 then
           (let rDD = sqrt DD in [(- b + rDD) / 2 / a, (- b - rDD) / 2 / a])
         else []))"

text \<open>
  Python's built-in \<open>round(x, ndigits)\<close> on an exact value: the nearest multiple of
  \<open>10 ^ (- ndigits)\<close>, a tie going to the even neighbour.
\<close>

definition py_round :: "real \<Rightarrow> nat \<Rightarrow> real" where
  "py_round x ndigits =
     (let y = x * 10 ^ ndigits;
          f = \<lfloor>y\<rfloor>;
          r = y - of_int f;
          n = (if r < 1 / 2 then f else if r > 1 / 2 then f + 1
               else if even f then f else f + 1)
      in of_int n / 10 ^ ndigits)"

text \<open>
  The three trigonometric roots of \<open>solveCubic\<close>, after \<open>sorted\<close>: the part of the
  function between \<open>theta = acos(...)\<close> and \<open>x0, x1, x2 = sorted([x0, x1, x2])\<close>,
  named so that statements can speak of the roots before merging and rounding.
\<close>

definition solveCubic_sorted_roots :: "real \<Rightarrow> real \<Rightarrow> real \<Rightarrow> real \<Rightarrow> real list" where
  "solveCubic_sorted_roots a1 Q R Q3 =
     (let theta = arccos (max (min (R / sqrt Q3) 1) (- 1));
          rQ2 = - 2 * sqrt Q;
          a1_3 = a1 / 3;
          x0 = rQ2 * cos (theta / 3) - a1_3;
          x1 = rQ2 * cos ((theta + 2 * pi) / 3) - a1_3;
          x2 = rQ2 * cos ((theta + 4 * pi) / 3) - a1_3
      in sort [x0, x1, x2])"

text \<open>The merging of close roots and the rounding, on the sorted roots.\<close>

definition solveCubic_merge :: "real \<Rightarrow> real \<Rightarrow> real \<Rightarrow> real list" where
  "solveCubic_merge x0 x1 x2 =
     (if x1 - x0 < epsilon \<and> x2 - x1 < epsilon then
        (let x = py_round ((x0 + x1 + x2) / 3) epsilonDigits in [x, x, x])
      else if x1 - x0 < epsilon then
        (let x = py_round ((x0 + x1) / 2) epsilonDigits in [x, x, py_round x2 epsilonDigits])
      else if x2 - x1 < epsilon then
        (let x = py_round ((x1 + x2) / 2) epsilonDigits in [py_round x0 epsilonDigits, x, x])
      else
        [py_round x0 epsilonDigits, py_round x1 epsilonDigits, py_round x2 epsilonDigits])"

definition solveCubic :: "real \<Rightarrow> real \<Rightarrow> real \<Rightarrow> real \<Rightarrow> real list" where
  "solveCubic a b c d =
     (if \<bar>a\<bar> < epsilon then solveQuadratic b c d
      else
        (let a1 = b / a;
             a2 = c / a;
             a3 = d / a;
             Q = (a1 * a1 - 3 * a2) / 9;
             R = (2 * a1 * a1 * a1 - 9 * a1 * a2 + 27 * a3) / 54;
             R2 = R * R;
             Q3 = Q * Q * Q;
             R2 = (if R2 < epsilon then 0 else R2);
             Q3 = (if \<bar>Q3\<bar> < epsilon then 0 else Q3);
             R2_Q3 = R2 - Q3
         in if R2 = 0 \<and> Q3 = 0 then
              (let x = py_round (- a1 / 3) epsilonDigits in [x, x, x])
            else if R2_Q3 \<le> epsilon * (1 / 2) then
              (case solveCubic_sorted_roots a1 Q R Q3 of
                 [x0, x1, x2] \<Rightarrow> solveCubic_merge x0 x1 x2
               | _ \<Rightarrow> [])
            else
              (let x = (sqrt R2_Q3 + \<bar>R\<bar>) powr (1 / 3);
                   x = x + Q / x;
                   x = (if R \<ge> 0 then - x else x);
                   x = py_round (x - a1 / 3) epsilonDigits
               in [x])))"

section \<open>Conversion between control points and power-basis parameters\<close>

definition calcQuadraticParameters ::
  "point \<Rightarrow> point \<Rightarrow> point \<Rightarrow> point \<times> point \<times> point" where
  "calcQuadraticParameters pt1 pt2 pt3 =
     (case pt2 of (x2, y2) \<Rightarrow> case pt3 of (x3, y3) \<Rightarrow> case pt1 of (cx, cy) \<Rightarrow>
        (let bx = (x2 - cx) * 2;
             by = (y2 - cy) * 2;
             ax = x3 - cx - bx;
             ay = y3 - cy - by
         in ((ax, ay), (bx, by), (cx, cy))))"

definition calcCubicParameters ::
  "point \<Rightarrow> point \<Rightarrow> point \<Rightarrow> point \<Rightarrow> point \<times> point \<times> point \<times> point" where
  "calcCubicParameters pt1 pt2 pt3 pt4 =
     (case pt2 of (x2, y2) \<Rightarrow> case pt3 of (x3, y3) \<Rightarrow> case pt4 of (x4, y4) \<Rightarrow>
      case pt1 of (dx, dy) \<Rightarrow>
        (let cx = (x2 - dx) * 3;
             cy = (y2 - dy) * 3;
             bx = (x3 - x2) * 3 - cx;
             by = (y3 - y2) * 3 - cy;
             ax = x4 - dx - cx - bx;
             ay = y4 - dy - cy - by
         in ((ax, ay), (bx, by), (cx, cy), (dx, dy))))"

definition calcQuadraticPoints ::
  "point \<Rightarrow> point \<Rightarrow> point \<Rightarrow> point \<times> point \<times> point" where
  "calcQuadraticPoints a b c =
     (case a of (ax, ay) \<Rightarrow> case b of (bx, by) \<Rightarrow> case c of (cx, cy) \<Rightarrow>
        (let x1 = cx;
             y1 = cy;
             x2 = (bx * (1 / 2)) + cx;
             y2 = (by * (1 / 2)) + cy;
             x3 = ax + bx + cx;
             y3 = ay + by + cy
         in ((x1, y1), (x2, y2), (x3, y3))))"

definition calcCubicPoints ::
  "point \<Rightarrow> point \<Rightarrow> point \<Rightarrow> point \<Rightarrow> point \<times> point \<times> point \<times> point" where
  "calcCubicPoints a b c d =
     (case a of (ax, ay) \<Rightarrow> case b of (bx, by) \<Rightarrow> case c of (cx, cy) \<Rightarrow>
      case d of (dx, dy) \<Rightarrow>
        (let x1 = dx;
             y1 = dy;
             x2 = (cx / 3) + dx;
             y2 = (cy / 3) + dy;
             x3 = (bx + cx) / 3 + x2;
             y3 = (by + cy) / 3 + y2;
             x4 = ax + dx + cx + bx;
             y4 = ay + dy + cy + by
         in ((x1, y1), (x2, y2), (x3, y3), (x4, y4))))"

section \<open>The basis conversion on doubles\<close>

text \<open>
  A Python float is an IEEE 754 binary64 value, and \<open>+\<close>, \<open>-\<close> and \<open>*\<close> on finite
  floats return the exact result rounded to the nearest double, a tie going to the even
  mantissa. \<open>double_round x\<close> is that rounding of the real \<open>x\<close>: with \<open>e\<close> the
  exponent of the binade of \<open>x\<close>, and \<open>-1022\<close> in the subnormal range, neighbouring
  doubles are \<open>2^(e - 52)\<close> apart. The result \<open>None\<close> stands for a magnitude beyond
  the largest double, where Python continues with \<open>inf\<close>. The sign of a zero is not
  modelled.
\<close>

definition pow2 :: "int \<Rightarrow> real" where
  "pow2 k = (if 0 \<le> k then 2 ^ nat k else 1 / 2 ^ nat (- k))"

definition round_half_even :: "real \<Rightarrow> int" where
  "round_half_even y =
     (let f = \<lfloor>y\<rfloor>;
          r = y - of_int f
      in if r < 1 / 2 then f else if r > 1 / 2 then f + 1
         else if even f then f else f + 1)"

definition double_exponent :: "real \<Rightarrow> int" where
  "double_exponent x = max \<lfloor>log 2 \<bar>x\<bar>\<rfloor> (- 1022)"

definition double_round :: "real \<Rightarrow> real option" where
  "double_round x =
     (if x = 0 then Some 0
      else
        (let ulp = pow2 (double_exponent x - 52);
             r = of_int (round_half_even (x / ulp)) * ulp
         in if \<bar>r\<bar> < 2 ^ 1024 then Some r else None))"

definition fadd :: "real \<Rightarrow> real \<Rightarrow> real option" where
  "fadd x y = double_round (x + y)"

definition fsub :: "real \<Rightarrow> real \<Rightarrow> real option" where
  "fsub x y = double_round (x - y)"

definition fmul :: "real \<Rightarrow> real \<Rightarrow> real option" where
  "fmul x y = double_round (x * y)"

text \<open>
  \<open>calcQuadraticParameters\<close> and \<open>calcQuadraticPoints\<close> again, on float arguments,
  every operation rounded; \<open>2.0\<close> and \<open>0.5\<close> are doubles.
\<close>

definition calcQuadraticParameters_double ::
  "point \<Rightarrow> point \<Rightarrow> point \<Rightarrow> (point \<times> point \<times> point) option" where
  "calcQuadraticParameters_double pt1 pt2 pt3 =
     (case pt2 of (x2, y2) \<Rightarrow> case pt3 of (x3, y3) \<Rightarrow> case pt1 of (cx, cy) \<Rightarrow>
        do {
          dx \<leftarrow> fsub x2 cx;
          bx \<leftarrow> fmul dx 2;
          dy \<leftarrow> fsub y2 cy;
          by \<leftarrow> fmul dy 2;
          ex \<leftarrow> fsub x3 cx;
          ax \<leftarrow> fsub ex bx;
          ey \<leftarrow> fsub y3 cy;
          ay \<leftarrow> fsub ey by;
          Some ((ax, ay), (bx, by), (cx, cy))
        })"

definition calcQuadraticPoints_double ::
  "point \<Rightarrow> point \<Rightarrow> point \<Rightarrow> (point \<times> point \<times> point) option" where
  "calcQuadraticPoints_double a b c =
     (case a of (ax, ay) \<Rightarrow> case b of (bx, by) \<Rightarrow> case c of (cx, cy) \<Rightarrow>
        do {
          hx \<leftarrow> fmul bx (1 / 2);
          x2 \<leftarrow> fadd hx cx;
          hy \<leftarrow> fmul by (1 / 2);
          y2 \<leftarrow> fadd hy cy;
          sx \<leftarrow> fadd ax bx;
          x3 \<leftarrow> fadd sx cx;
          sy \<leftarrow> fadd ay by;
          y3 \<leftarrow> fadd sy cy;
          Some ((cx, cy), (x2, y2), (x3, y3))
        })"

section \<open>Point at time\<close>

definition linePointAtT :: "point \<Rightarrow> point \<Rightarrow> real \<Rightarrow> point" where
  "linePointAtT pt1 pt2 t =
     ((fst pt1 * (1 - t) + fst pt2 * t), (snd pt1 * (1 - t) + snd pt2 * t))"

definition quadraticPointAtT :: "point \<Rightarrow> point \<Rightarrow> point \<Rightarrow> real \<Rightarrow> point" where
  "quadraticPointAtT pt1 pt2 pt3 t =
     (let x = (1 - t) * (1 - t) * fst pt1 + 2 * (1 - t) * t * fst pt2 + t * t * fst pt3;
          y = (1 - t) * (1 - t) * snd pt1 + 2 * (1 - t) * t * snd pt2 + t * t * snd pt3
      in (x, y))"

definition cubicPointAtT :: "point \<Rightarrow> point \<Rightarrow> point \<Rightarrow> point \<Rightarrow> real \<Rightarrow> point" where
  "cubicPointAtT pt1 pt2 pt3 pt4 t =
     (let x = (1 - t) * (1 - t) * (1 - t) * fst pt1
            + 3 * (1 - t) * (1 - t) * t * fst pt2
            + 3 * (1 - t) * t * t * fst pt3
            + t * t * t * fst pt4;
          y = (1 - t) * (1 - t) * (1 - t) * snd pt1
            + 3 * (1 - t) * (1 - t) * t * snd pt2
            + 3 * (1 - t) * t * t * snd pt3
            + t * t * t * snd pt4
      in (x, y))"

text \<open>
  \<open>segmentPointAtT\<close> takes a sequence of points and dispatches on its length; the
  final \<open>raise ValueError("Unknown curve degree")\<close> is the result \<open>Inl ValueError\<close>.
\<close>

definition segmentPointAtT :: "point list \<Rightarrow> real \<Rightarrow> error + point" where
  "segmentPointAtT seg t =
     (if length seg = 2 then Inr (linePointAtT (seg ! 0) (seg ! 1) t)
      else if length seg = 3 then Inr (quadraticPointAtT (seg ! 0) (seg ! 1) (seg ! 2) t)
      else if length seg = 4 then
        Inr (cubicPointAtT (seg ! 0) (seg ! 1) (seg ! 2) (seg ! 3) t)
      else Inl ValueError)"

section \<open>Bounding boxes\<close>

text \<open>
  Modelled from the spec: \<open>calcBounds\<close> of fontTools.misc.arrayTools, which is not among
  the sources: the axis-aligned extent \<open>(xMin, yMin, xMax, yMax)\<close> of a list of points.
  Both callers pass a list that ends with the two end points of the segment, so the list
  is never empty.
\<close>

definition calcBounds :: "point list \<Rightarrow> bounds" where
  "calcBounds array =
     (let xs = map fst array; ys = map snd array
      in (Min (set xs), Min (set ys), Max (set xs), Max (set ys)))"

definition calcQuadraticBounds :: "point \<Rightarrow> point \<Rightarrow> point \<Rightarrow> bounds" where
  "calcQuadraticBounds pt1 pt2 pt3 =
     (case calcQuadraticParameters pt1 pt2 pt3 of ((ax, ay), (bx, by), (cx, cy)) \<Rightarrow>
        (let ax2 = ax * 2;
             ay2 = ay * 2;
             roots = (if ax2 \<noteq> 0 then [- bx / ax2] else [])
                   @ (if ay2 \<noteq> 0 then [- by / ay2] else []);
             points = map (\<lambda>t. (ax * t * t + bx * t + cx, ay * t * t + by * t + cy))
                        (filter (\<lambda>t. 0 \<le> t \<and> t < 1) roots) @ [pt1, pt3]
         in calcBounds points))"

definition calcCubicBounds :: "point \<Rightarrow> point \<Rightarrow> point \<Rightarrow> point \<Rightarrow> bounds" where
  "calcCubicBounds pt1 pt2 pt3 pt4 =
     (case calcCubicParameters pt1 pt2 pt3 pt4 of
        ((ax, ay), (bx, by), (cx, cy), (dx, dy)) \<Rightarrow>
        (let ax3 = ax * 3;
             ay3 = ay * 3;
             bx2 = bx * 2;
             by2 = by * 2;
             xRoots = filter (\<lambda>t. 0 \<le> t \<and> t < 1) (solveQuadratic ax3 bx2 cx);
             yRoots = filter (\<lambda>t. 0 \<le> t \<and> t < 1) (solveQuadratic ay3 by2 cy);
             roots = xRoots @ yRoots;
             points = map (\<lambda>t. (ax * t * t * t + bx * t * t + cx * t + dx,
                                 ay * t * t * t + by * t * t + cy * t + dy)) roots
                      @ [pt1, pt4]
         in calcBounds points))"

section \<open>Splitting at parameter values\<close>

text \<open>
  The loop \<open>for i in range(len(ts) - 1)\<close> of \<open>_splitQuadraticAtT\<close> and
  \<open>_splitCubicAtT\<close> reads \<open>ts[i]\<close> and \<open>ts[i+1]\<close> of the list extended by \<open>0.0\<close> in
  front and \<open>1.0\<close> behind; every index it reads is in range.
\<close>

definition splitQuadraticAtT' ::
  "point \<Rightarrow> point \<Rightarrow> point \<Rightarrow> real list \<Rightarrow> (point \<times> point \<times> point) list" where
  "splitQuadraticAtT' a b c ts0 =
     (let ts = 0 # ts0 @ [1] in
      case a of (ax, ay) \<Rightarrow> case b of (bx, by) \<Rightarrow> case c of (cx, cy) \<Rightarrow>
        map (\<lambda>i.
          let t1 = ts ! i;
              t2 = ts ! (i + 1);
              delta = t2 - t1;
              delta_2 = delta * delta;
              a1x = ax * delta_2;
              a1y = ay * delta_2;
              b1x = (2 * ax * t1 + bx) * delta;
              b1y = (2 * ay * t1 + by) * delta;
              t1_2 = t1 * t1;
              c1x = ax * t1_2 + bx * t1 + cx;
              c1y = ay * t1_2 + by * t1 + cy
          in calcQuadraticPoints (a1x, a1y) (b1x, b1y) (c1x, c1y))
          [0 ..< length ts - 1])"

definition splitCubicAtT' ::
  "point \<Rightarrow> point \<Rightarrow> point \<Rightarrow> point \<Rightarrow> real list
     \<Rightarrow> (point \<times> point \<times> point \<times> point) list" where
  "splitCubicAtT' a b c d ts0 =
     (let ts = 0 # ts0 @ [1] in
      case a of (ax, ay) \<Rightarrow> case b of (bx, by) \<Rightarrow> case c of (cx, cy) \<Rightarrow>
      case d of (dx, dy) \<Rightarrow>
        map (\<lambda>i.
          let t1 = ts ! i;
              t2 = ts ! (i + 1);
              delta = t2 - t1;
              delta_2 = delta * delta;
              delta_3 = delta * delta_2;
              t1_2 = t1 * t1;
              t1_3 = t1 * t1_2;
              a1x = ax * delta_3;
              a1y = ay * delta_3;
              b1x = (3 * ax * t1 + bx) * delta_2;
              b1y = (3 * ay * t1 + by) * delta_2;
              c1x = (2 * bx * t1 + cx + 3 * ax * t1_2) * delta;
              c1y = (2 * by * t1 + cy + 3 * ay * t1_2) * delta;
              d1x = ax * t1_3 + bx * t1_2 + cx * t1 + dx;
              d1y = ay * t1_3 + by * t1_2 + cy * t1 + dy
          in calcCubicPoints (a1x, a1y) (b1x, b1y) (c1x, c1y) (d1x, d1y))
          [0 ..< length ts - 1])"

definition splitQuadraticAtT ::
  "point \<Rightarrow> point \<Rightarrow> point \<Rightarrow> real list \<Rightarrow> (point \<times> point \<times> point) list" where
  "splitQuadraticAtT pt1 pt2 pt3 ts =
     (case calcQuadraticParameters pt1 pt2 pt3 of (a, b, c) \<Rightarrow> splitQuadraticAtT' a b c ts)"

definition splitCubicAtT ::
  "point \<Rightarrow> point \<Rightarrow> point \<Rightarrow> point \<Rightarrow> real list
     \<Rightarrow> (point \<times> point \<times> point \<times> point) list" where
  "splitCubicAtT pt1 pt2 pt3 pt4 ts =
     (case calcCubicParameters pt1 pt2 pt3 pt4 of (a, b, c, d) \<Rightarrow>
        splitCubicAtT' a b c d ts)"

section \<open>Intersection finders\<close>

text \<open>\<open>math.isclose\<close> with its default \<open>rel_tol = 1e-09\<close> and \<open>abs_tol = 0.0\<close>.\<close>

definition isclose :: "real \<Rightarrow> real \<Rightarrow> bool" where
  "isclose a b = (\<bar>a - b\<bar> \<le> max ((1 / 10 ^ 9) * max \<bar>a\<bar> \<bar>b\<bar>) 0)"

definition line_t_of_pt' :: "point \<Rightarrow> point \<Rightarrow> point \<Rightarrow> real" where
  "line_t_of_pt' s e p =
     (case s of (sx, sy) \<Rightarrow> case e of (ex, ey) \<Rightarrow> case p of (px, py) \<Rightarrow>
        if \<not> isclose sx ex then (px - sx) / (ex - sx)
        else if \<not> isclose sy ey then (py - sy) / (ey - sy)
        else - 1)"

definition both_points_are_on_same_side_of_origin' :: "point \<Rightarrow> point \<Rightarrow> point \<Rightarrow> bool" where
  "both_points_are_on_same_side_of_origin' a b c =
     (let xDiff = (fst a - fst c) * (fst b - fst c);
          yDiff = (snd a - snd c) * (snd b - snd c)
      in \<not> (xDiff \<le> 0 \<and> yDiff \<le> 0))"

text \<open>
  \<open>lineLineIntersections\<close>. In the branch for a vertical first line the source reads
  \<open>slope34 = (dy - xy) / (dx - cx)\<close>; no name \<open>xy\<close> is bound in the function or the
  module, so evaluating the expression raises NameError, which ends the call.
\<close>

definition lineLineIntersections ::
  "point \<Rightarrow> point \<Rightarrow> point \<Rightarrow> point \<Rightarrow> error + Intersection list" where
  "lineLineIntersections s1 e1 s2 e2 =
     (case s1 of (ax, ay) \<Rightarrow> case e1 of (bx, by) \<Rightarrow>
      case s2 of (cx, cy) \<Rightarrow> case e2 of (dx, dy) \<Rightarrow>
        if isclose cx dx \<and> isclose ax bx then Inr []
        else if isclose cy dy \<and> isclose ay by then Inr []
        else if isclose cx dx \<and> isclose cy dy then Inr []
        else if isclose ax bx \<and> isclose ay by then Inr []
        else if isclose bx ax then Inl NameError
        else if isclose cx dx then
          (let x = cx;
               slope12 = (by - ay) / (bx - ax);
               y = slope12 * (x - ax) + ay;
               p = (x, y)
           in Inr [\<lparr>pt = p, t1 = line_t_of_pt' s1 e1 p, t2 = line_t_of_pt' s2 e2 p\<rparr>])
        else
          (let slope12 = (by - ay) / (bx - ax);
               slope34 = (dy - cy) / (dx - cx)
           in if isclose slope12 slope34 then Inr []
              else
                (let x = (slope12 * ax - ay - slope34 * cx + cy) / (slope12 - slope34);
                     y = slope12 * (x - ax) + ay;
                     p = (x, y)
                 in if both_points_are_on_same_side_of_origin' p e1 s1
                       \<and> both_points_are_on_same_side_of_origin' p s2 e2
                    then Inr [\<lparr>pt = p, t1 = line_t_of_pt' s1 e1 p,
                               t2 = line_t_of_pt' s2 e2 p\<rparr>]
                    else Inr [])))"

text \<open>
  \<open>_alignment_transformation\<close> reads \<open>segment[0]\<close> and \<open>segment[-1]\<close> and builds an
  affine transform with \<open>Offset\<close>, \<open>Identity.rotate\<close> and \<open>reverseTransform\<close> of
  fontTools.misc.transform, which is not among the sources. The parameter \<open>al\<close> stands
  for that construction: \<open>al start end\<close> is the point map of the transform, and
  \<open>transformPoints\<close> applies it to every point of a list.
\<close>

definition alignment_transformation' ::
  "(point \<Rightarrow> point \<Rightarrow> point \<Rightarrow> point) \<Rightarrow> point list \<Rightarrow> error + (point \<Rightarrow> point)" where
  "alignment_transformation' al segment =
     (if segment = [] then Inl IndexError
      else Inr (al (segment ! 0) (last segment)))"

text \<open>
  A call \<open>f(*seq)\<close> binds the items of the sequence to the positional parameters of
  \<open>f\<close>; a number of items that does not fit is a TypeError.
\<close>

definition calcCubicParameters_star ::
  "point list \<Rightarrow> error + (point \<times> point \<times> point \<times> point)" where
  "calcCubicParameters_star pts =
     (case pts of
        [p1, p2, p3, p4] \<Rightarrow> Inr (calcCubicParameters p1 p2 p3 p4)
      | _ \<Rightarrow> Inl TypeError)"

definition line_t_of_pt'_star :: "point list \<Rightarrow> point \<Rightarrow> error + real" where
  "line_t_of_pt'_star line p =
     (case line of
        [s, e] \<Rightarrow> Inr (line_t_of_pt' s e p)
      | _ \<Rightarrow> Inl TypeError)"

text \<open>
  \<open>_curve_line_intersections_t\<close>. For a curve of three points the source calls
  \<open>calcCubicParameters(*aligned_curve)\<close> and assigns the result to \<open>a, b, c\<close>: the call
  gets three arguments for four parameters, and a result of four items could not be
  unpacked into three names either, so the two \<open>solveQuadratic\<close> calls that follow are
  never reached.
\<close>

definition curve_line_intersections_t' ::
  "(point \<Rightarrow> point \<Rightarrow> point \<Rightarrow> point) \<Rightarrow> point list \<Rightarrow> point list \<Rightarrow> error + real list" where
  "curve_line_intersections_t' al curve line =
     (case alignment_transformation' al line of
        Inl e \<Rightarrow> Inl e
      | Inr T \<Rightarrow>
          (let aligned_curve = map T curve
           in if length curve = 3 then
                (case calcCubicParameters_star aligned_curve of
                   Inl e \<Rightarrow> Inl e
                 | Inr (a, b, c, d) \<Rightarrow> Inl ValueError)
              else if length curve = 4 then
                (case calcCubicParameters_star aligned_curve of
                   Inl e \<Rightarrow> Inl e
                 | Inr (a, b, c, d) \<Rightarrow>
                     (let intersections = solveCubic (fst a) (fst b) (fst c) (fst d)
                                        @ solveCubic (snd a) (snd b) (snd c) (snd d)
                      in Inr (sort (filter (\<lambda>i. 0 \<le> i \<and> i \<le> 1) intersections))))
              else Inl ValueError))"

definition pointFinder :: "point list \<Rightarrow> real \<Rightarrow> point" where
  "pointFinder curve t =
     (if length curve = 3 then quadraticPointAtT (curve ! 0) (curve ! 1) (curve ! 2) t
      else cubicPointAtT (curve ! 0) (curve ! 1) (curve ! 2) (curve ! 3) t)"

fun curveLineIntersections_loop ::
  "point list \<Rightarrow> point list \<Rightarrow> real list \<Rightarrow> error + Intersection list" where
  "curveLineIntersections_loop curve line [] = Inr []"
| "curveLineIntersections_loop curve line (t # ts) =
     (let p = pointFinder curve t
      in case line_t_of_pt'_star line p of
           Inl e \<Rightarrow> Inl e
         | Inr u \<Rightarrow>
             (case curveLineIntersections_loop curve line ts of
                Inl e \<Rightarrow> Inl e
              | Inr rest \<Rightarrow> Inr (\<lparr>pt = p, t1 = t, t2 = u\<rparr> # rest)))"

definition curveLineIntersections ::
  "(point \<Rightarrow> point \<Rightarrow> point \<Rightarrow> point) \<Rightarrow> point list \<Rightarrow> point list
     \<Rightarrow> error + Intersection list" where
  "curveLineIntersections al curve line =
     (if length curve = 3 \<or> length curve = 4 then
        (case curve_line_intersections_t' al curve line of
           Inl e \<Rightarrow> Inl e
         | Inr ts \<Rightarrow> curveLineIntersections_loop curve line ts)
      else Inl ValueError)"

text \<open>\<open>_curve_bounds\<close> falls off its end for any other length and returns \<open>None\<close>.\<close>

definition curve_bounds' :: "point list \<Rightarrow> bounds option" where
  "curve_bounds' c =
     (if length c = 3 then Some (calcQuadraticBounds (c ! 0) (c ! 1) (c ! 2))
      else if length c = 4 then Some (calcCubicBounds (c ! 0) (c ! 1) (c ! 2) (c ! 3))
      else None)"

definition split_segment_at_t' :: "point list \<Rightarrow> real \<Rightarrow> point list list option" where
  "split_segment_at_t' c t =
     (if length c = 2 then
        (let s = c ! 0; e = c ! 1; midpoint = linePointAtT s e t
         in Some [[s, midpoint], [midpoint, e]])
      else if length c = 3 then
        Some (map (\<lambda>(p1, p2, p3). [p1, p2, p3]) (splitQuadraticAtT (c ! 0) (c ! 1) (c ! 2) [t]))
      else if length c = 4 then
        Some (map (\<lambda>(p1, p2, p3, p4). [p1, p2, p3, p4])
               (splitCubicAtT (c ! 0) (c ! 1) (c ! 2) (c ! 3) [t]))
      else None)"

definition midpoint :: "real \<times> real \<Rightarrow> real" where
  "midpoint r = (1 / 2) * (fst r + snd r)"

text \<open>\<open>int(x)\<close> truncates towards zero.\<close>

definition py_int :: "real \<Rightarrow> int" where
  "py_int x = (if 0 \<le> x then \<lfloor>x\<rfloor> else \<lceil>x\<rceil>)"

definition unique_key :: "real \<Rightarrow> real \<times> real \<Rightarrow> int" where
  "unique_key precision ts = py_int (fst ts / precision)"

text \<open>
  The closing list comprehension of \<open>_curve_curve_intersections_t\<close>: an entry is kept
  when its key is not yet in \<open>seen\<close>, and keeping it adds the key.
\<close>

fun unique_filter :: "real \<Rightarrow> int set \<Rightarrow> (real \<times> real) list \<Rightarrow> (real \<times> real) list" where
  "unique_filter precision seen [] = []"
| "unique_filter precision seen (ts # found) =
     (if unique_key precision ts \<notin> seen
      then ts # unique_filter precision (insert (unique_key precision ts) seen) found
      else unique_filter precision seen found)"

text \<open>
  \<open>_curve_curve_intersections_t\<close>. The first argument bounds the depth of the recursion,
  as the interpreter's recursion limit does; when it is used up the call ends with
  RecursionError. \<open>sectRect\<close> (its first result, whether the rectangles intersect) and
  \<open>rectArea\<close> of fontTools.misc.arrayTools are not among the sources and are parameters.
  A curve that is neither quadratic nor cubic has the bounds \<open>None\<close>, which no rectangle
  operation accepts, and cannot be split into \<open>c11, c12\<close>: both are TypeError. The key
  of the final filter divides by \<open>precision\<close>.
\<close>

fun curve_curve_intersections_t' ::
  "nat \<Rightarrow> (bounds \<Rightarrow> bounds \<Rightarrow> bool) \<Rightarrow> (bounds \<Rightarrow> real) \<Rightarrow> point list \<Rightarrow> point list \<Rightarrow> real
     \<Rightarrow> (real \<times> real) option \<Rightarrow> (real \<times> real) option \<Rightarrow> error + (real \<times> real) list" where
  "curve_curve_intersections_t' 0 sectRect rectArea curve1 curve2 precision range1 range2 =
     Inl RecursionError"
| "curve_curve_intersections_t' (Suc n) sectRect rectArea curve1 curve2 precision range1 range2 =
     (let bounds1 = curve_bounds' curve1;
          bounds2 = curve_bounds' curve2;
          range1 = (case range1 of None \<Rightarrow> (0, 1) | Some r \<Rightarrow> r);
          range2 = (case range2 of None \<Rightarrow> (0, 1) | Some r \<Rightarrow> r)
      in case (bounds1, bounds2) of
           (Some b1, Some b2) \<Rightarrow>
             if \<not> sectRect b1 b2 then Inr []
             else if rectArea b1 < precision \<and> rectArea b2 < precision then
               Inr [(midpoint range1, midpoint range2)]
             else
               (case split_segment_at_t' curve1 (1 / 2) of
                  Some [c11, c12] \<Rightarrow>
                    (case split_segment_at_t' curve2 (1 / 2) of
                       Some [c21, c22] \<Rightarrow>
                         (let c11_range = (fst range1, midpoint range1);
                              c12_range = (midpoint range1, snd range1);
                              c21_range = (fst range2, midpoint range2);
                              c22_range = (midpoint range2, snd range2)
                          in case curve_curve_intersections_t' n sectRect rectArea c11 c21
                                    precision (Some c11_range) (Some c21_range) of
                               Inl e \<Rightarrow> Inl e
                             | Inr f1 \<Rightarrow>
                           (case curve_curve_intersections_t' n sectRect rectArea c12 c21
                                    precision (Some c12_range) (Some c21_range) of
                               Inl e \<Rightarrow> Inl e
                             | Inr f2 \<Rightarrow>
                           (case curve_curve_intersections_t' n sectRect rectArea c11 c22
                                    precision (Some c11_range) (Some c22_range) of
                               Inl e \<Rightarrow> Inl e
                             | Inr f3 \<Rightarrow>
                           (case curve_curve_intersections_t' n sectRect rectArea c12 c22
                                    precision (Some c12_range) (Some c22_range) of
                               Inl e \<Rightarrow> Inl e
                             | Inr f4 \<Rightarrow>
                               (let found = f1 @ f2 @ f3 @ f4
                                in if precision = 0 \<and> found \<noteq> [] then Inl ZeroDivisionError
                                   else Inr (unique_filter precision {} found))))))
                     | _ \<Rightarrow> Inl TypeError)
                | _ \<Rightarrow> Inl TypeError)
         | _ \<Rightarrow> Inl TypeError)"

fun map_result :: "('a \<Rightarrow> error + 'b) \<Rightarrow> 'a list \<Rightarrow> error + 'b list" where
  "map_result f [] = Inr []"
| "map_result f (x # xs) =
     (case f x of
        Inl e \<Rightarrow> Inl e
      | Inr y \<Rightarrow> (case map_result f xs of Inl e \<Rightarrow> Inl e | Inr ys \<Rightarrow> Inr (y # ys)))"

definition curveCurveIntersections ::
  "nat \<Rightarrow> (bounds \<Rightarrow> bounds \<Rightarrow> bool) \<Rightarrow> (bounds \<Rightarrow> real) \<Rightarrow> point list \<Rightarrow> point list
     \<Rightarrow> error + Intersection list" where
  "curveCurveIntersections n sectRect rectArea curve1 curve2 =
     (case curve_curve_intersections_t' n sectRect rectArea curve1 curve2 (1 / 10 ^ 3)
             None None of
        Inl e \<Rightarrow> Inl e
      | Inr intersection_ts \<Rightarrow>
          map_result (\<lambda>ts.
            case segmentPointAtT curve1 (fst ts) of
              Inl e \<Rightarrow> Inl e
            | Inr p \<Rightarrow> Inr \<lparr>pt = p, t1 = fst ts, t2 = snd ts\<rparr>) intersection_ts)"

definition segmentSegmentIntersections ::
  "nat \<Rightarrow> (point \<Rightarrow> point \<Rightarrow> point \<Rightarrow> point) \<Rightarrow> (bounds \<Rightarrow> bounds \<Rightarrow> bool) \<Rightarrow> (bounds \<Rightarrow> real)
     \<Rightarrow> point list \<Rightarrow> point list \<Rightarrow> error + Intersection list" where
  "segmentSegmentIntersections n al sectRect rectArea seg1 seg2 =
     (case (if length seg2 > length seg1 then (seg2, seg1) else (seg1, seg2)) of
        (seg1, seg2) \<Rightarrow>
          if length seg1 > 2 then
            (if length seg2 > 2 then curveCurveIntersections n sectRect rectArea seg1 seg2
             else curveLineIntersections al seg1 seg2)
          else if length seg1 = 2 \<and> length seg2 = 2 then
            lineLineIntersections (seg1 ! 0) (seg1 ! 1) (seg2 ! 0) (seg2 ! 1)
          else Inl ValueError)"

text \<open>
  Modelled from the spec: \<open>sectRect\<close> and \<open>rectArea\<close> of fontTools.misc.arrayTools, which
  are not among the sources: whether two bounds have a point in common
  (\<open>b1 \<inter> b2 = \<emptyset>\<close> in the spec's words), and the area of a bounds rectangle. They are
  the intended values of the parameters \<open>sectRect\<close> and \<open>rectArea\<close> above; no general
  statement below depends on them.
\<close>

definition sectRect :: "bounds \<Rightarrow> bounds \<Rightarrow> bool" where
  "sectRect rect1 rect2 =
     (case rect1 of (xMin1, yMin1, xMax1, yMax1) \<Rightarrow>
      case rect2 of (xMin2, yMin2, xMax2, yMax2) \<Rightarrow>
        max xMin1 xMin2 \<le> min xMax1 xMax2 \<and> max yMin1 yMin2 \<le> min yMax1 yMax2)"

definition rectArea :: "bounds \<Rightarrow> real" where
  "rectArea rect =
     (case rect of (xMin, yMin, xMax, yMax) \<Rightarrow> (yMax - yMin) * (xMax - xMin))"

section \<open>Verified properties\<close>

subsection \<open>Equation solvers\<close>

text \<open>
  C4. \<open>solveQuadratic a b c\<close> is empty when \<open>|a| < 1e-10\<close> and \<open>|b| < 1e-10\<close>; it
  is the single root \<open>[-c/b]\<close> when \<open>|a| < 1e-10\<close> and \<open>|b| >= 1e-10\<close>; it is empty
  when \<open>|a| >= 1e-10\<close> and the discriminant \<open>b^2 - 4ac\<close> is negative; otherwise it is
  the two roots \<open>(-b + sqrt D)/(2a)\<close> and \<open>(-b - sqrt D)/(2a)\<close> in that order, equal
  when the discriminant is zero.
\<close>

theorem solveQuadratic_cases:
  "(\<bar>a\<bar> < 1 / 10 ^ 10 \<and> \<bar>b\<bar> < 1 / 10 ^ 10 \<longrightarrow> solveQuadratic a b c = [])
   \<and> (\<bar>a\<bar> < 1 / 10 ^ 10 \<and> \<bar>b\<bar> \<ge> 1 / 10 ^ 10 \<longrightarrow> solveQuadratic a b c = [- c / b])
   \<and> (\<bar>a\<bar> \<ge> 1 / 10 ^ 10 \<and> b\<^sup>2 - 4 * a * c < 0 \<longrightarrow> solveQuadratic a b c = [])
   \<and> (\<bar>a\<bar> \<ge> 1 / 10 ^ 10 \<and> b\<^sup>2 - 4 * a * c \<ge> 0 \<longrightarrow>
        solveQuadratic a b c =
          [(- b + sqrt (b\<^sup>2 - 4 * a * c)) / (2 * a), (- b - sqrt (b\<^sup>2 - 4 * a * c)) / (2 * a)])"
  by (simp add: solveQuadratic_def epsilon_def Let_def power2_eq_square)

theorem solveQuadratic_cases_witness:
  "solveQuadratic 0 0 1 = []
   \<and> solveQuadratic 0 2 1 = [- 1 / 2]
   \<and> solveQuadratic 1 0 1 = []
   \<and> solveQuadratic 1 (- 3) 2 = [2, 1]
   \<and> solveQuadratic 1 (- 2) 1 = [1, 1]"
  using solveQuadratic_cases [of 0 0 1] solveQuadratic_cases [of 0 2 1]
    solveQuadratic_cases [of 1 0 1] solveQuadratic_cases [of 1 "- 3" 2]
    solveQuadratic_cases [of 1 "- 2" 1]
  by simp

















subsection \<open>Splitting\<close>

lemma splitQuadraticAtT'_length: "length (splitQuadraticAtT' a b c ts) = length ts + 1"
  by (simp add: splitQuadraticAtT'_def Let_def split: prod.splits)

lemma splitCubicAtT'_length: "length (splitCubicAtT' a b c d ts) = length ts + 1"
  by (simp add: splitCubicAtT'_def Let_def split: prod.splits)

lemma splitQuadraticAtT'_first:
  assumes "i \<le> length ts"
  shows "fst (splitQuadraticAtT' (ax, ay) (bx, by) (cx, cy) ts ! i) =
          (let t = (0 # ts @ [1]) ! i in (ax * t\<^sup>2 + bx * t + cx, ay * t\<^sup>2 + by * t + cy))"
  using assms
  by (simp add: splitQuadraticAtT'_def calcQuadraticPoints_def Let_def power2_eq_square
      del: upt_Suc nth_Cons_Suc)

lemma splitQuadraticAtT'_last:
  assumes "i \<le> length ts"
  shows "snd (snd (splitQuadraticAtT' (ax, ay) (bx, by) (cx, cy) ts ! i)) =
          (let t = (0 # ts @ [1]) ! (i + 1)
           in (ax * t\<^sup>2 + bx * t + cx, ay * t\<^sup>2 + by * t + cy))"
  using assms
  by (simp add: splitQuadraticAtT'_def calcQuadraticPoints_def Let_def power2_eq_square
      algebra_simps del: upt_Suc)

lemma splitCubicAtT'_first:
  assumes "i \<le> length ts"
  shows "fst (splitCubicAtT' (ax, ay) (bx, by) (cx, cy) (dx, dy) ts ! i) =
          (let t = (0 # ts @ [1]) ! i
           in (ax * t ^ 3 + bx * t\<^sup>2 + cx * t + dx, ay * t ^ 3 + by * t\<^sup>2 + cy * t + dy))"
  using assms
  by (simp add: splitCubicAtT'_def calcCubicPoints_def Let_def power2_eq_square
      power3_eq_cube del: upt_Suc nth_Cons_Suc)

lemma splitCubicAtT'_last:
  assumes "i \<le> length ts"
  shows "snd (snd (snd (splitCubicAtT' (ax, ay) (bx, by) (cx, cy) (dx, dy) ts ! i))) =
          (let t = (0 # ts @ [1]) ! (i + 1)
           in (ax * t ^ 3 + bx * t\<^sup>2 + cx * t + dx, ay * t ^ 3 + by * t\<^sup>2 + cy * t + dy))"
  using assms
  by (simp add: splitCubicAtT'_def calcCubicPoints_def Let_def power2_eq_square
      power3_eq_cube algebra_simps del: upt_Suc)

text \<open>
  C6. For a quadratic and for a cubic segment and a list of \<open>k\<close> parameters,
  \<open>splitQuadraticAtT\<close> and \<open>splitCubicAtT\<close> return \<open>k + 1\<close> sub-segments of the
  arity of the input; the first starts at the start point of the input, the last
  control point of each is the first control point of the next, and the last ends at
  the end point of the input. The arity is the type of the result; the statement holds
  for every list of parameters, ascending in \<open>[0, 1]\<close> or not.
\<close>

theorem splitAtT_chain:
  "(let qs = splitQuadraticAtT p1 p2 p3 ts in
      length qs = length ts + 1
      \<and> fst (qs ! 0) = p1
      \<and> snd (snd (qs ! length ts)) = p3
      \<and> (\<forall>i < length ts. snd (snd (qs ! i)) = fst (qs ! (i + 1))))
   \<and> (let cs = splitCubicAtT q1 q2 q3 q4 ts in
      length cs = length ts + 1
      \<and> fst (cs ! 0) = q1
      \<and> snd (snd (snd (cs ! length ts))) = q4
      \<and> (\<forall>i < length ts. snd (snd (snd (cs ! i))) = fst (cs ! (i + 1))))"
proof -
  obtain p1x p1y p2x p2y p3x p3y where p: "p1 = (p1x, p1y)" "p2 = (p2x, p2y)" "p3 = (p3x, p3y)"
    by (metis surj_pair)
  obtain q1x q1y q2x q2y q3x q3y q4x q4y where
    q: "q1 = (q1x, q1y)" "q2 = (q2x, q2y)" "q3 = (q3x, q3y)" "q4 = (q4x, q4y)"
    by (metis surj_pair)
  obtain ax ay bx "by" cx cy where
    qp: "calcQuadraticParameters p1 p2 p3 = ((ax, ay), (bx, by), (cx, cy))"
    by (metis surj_pair)
  have qv: "cx = p1x" "cy = p1y" "ax + bx + cx = p3x" "ay + by + cy = p3y"
    using qp by (auto simp: calcQuadraticParameters_def p Let_def)
  obtain ex ey fx fy gx gy hx hy where
    cp: "calcCubicParameters q1 q2 q3 q4 = ((ex, ey), (fx, fy), (gx, gy), (hx, hy))"
    by (metis surj_pair)
  have cv: "hx = q1x" "hy = q1y" "ex + fx + gx + hx = q4x" "ey + fy + gy + hy = q4y"
    using cp by (auto simp: calcCubicParameters_def q Let_def)
  have sq: "splitQuadraticAtT p1 p2 p3 ts = splitQuadraticAtT' (ax, ay) (bx, by) (cx, cy) ts"
    by (simp add: splitQuadraticAtT_def qp)
  have sc: "splitCubicAtT q1 q2 q3 q4 ts
      = splitCubicAtT' (ex, ey) (fx, fy) (gx, gy) (hx, hy) ts"
    by (simp add: splitCubicAtT_def cp)
  have last1: "(0 # ts @ [1::real]) ! (length ts + 1) = 1"
    by (simp add: nth_append)
  have Q: "length (splitQuadraticAtT p1 p2 p3 ts) = length ts + 1"
     "fst (splitQuadraticAtT p1 p2 p3 ts ! 0) = p1"
     "snd (snd (splitQuadraticAtT p1 p2 p3 ts ! length ts)) = p3"
     "\<forall>i < length ts. snd (snd (splitQuadraticAtT p1 p2 p3 ts ! i))
        = fst (splitQuadraticAtT p1 p2 p3 ts ! (i + 1))"
  proof -
    show "length (splitQuadraticAtT p1 p2 p3 ts) = length ts + 1"
      unfolding sq by (simp add: splitQuadraticAtT'_length)
    show "fst (splitQuadraticAtT p1 p2 p3 ts ! 0) = p1"
      unfolding sq using splitQuadraticAtT'_first [of 0 ts ax ay bx "by" cx cy]
      by (simp add: qv p)
    show "snd (snd (splitQuadraticAtT p1 p2 p3 ts ! length ts)) = p3"
      unfolding sq
      using splitQuadraticAtT'_last [of "length ts" ts ax ay bx "by" cx cy] last1 qv
      by (simp add: p Let_def del: nth_Cons_Suc)
    show "\<forall>i < length ts. snd (snd (splitQuadraticAtT p1 p2 p3 ts ! i))
        = fst (splitQuadraticAtT p1 p2 p3 ts ! (i + 1))"
      unfolding sq
      using splitQuadraticAtT'_last [of _ ts ax ay bx "by" cx cy]
        splitQuadraticAtT'_first [of _ ts ax ay bx "by" cx cy]
      by (simp del: nth_Cons_Suc)
  qed
  have C: "length (splitCubicAtT q1 q2 q3 q4 ts) = length ts + 1"
     "fst (splitCubicAtT q1 q2 q3 q4 ts ! 0) = q1"
     "snd (snd (snd (splitCubicAtT q1 q2 q3 q4 ts ! length ts))) = q4"
     "\<forall>i < length ts. snd (snd (snd (splitCubicAtT q1 q2 q3 q4 ts ! i)))
        = fst (splitCubicAtT q1 q2 q3 q4 ts ! (i + 1))"
  proof -
    show "length (splitCubicAtT q1 q2 q3 q4 ts) = length ts + 1"
      unfolding sc by (simp add: splitCubicAtT'_length)
    show "fst (splitCubicAtT q1 q2 q3 q4 ts ! 0) = q1"
      unfolding sc using splitCubicAtT'_first [of 0 ts ex ey fx fy gx gy hx hy]
      by (simp add: cv q)
    show "snd (snd (snd (splitCubicAtT q1 q2 q3 q4 ts ! length ts))) = q4"
      unfolding sc
      using splitCubicAtT'_last [of "length ts" ts ex ey fx fy gx gy hx hy] last1 cv
      by (simp add: q Let_def del: nth_Cons_Suc)
    show "\<forall>i < length ts. snd (snd (snd (splitCubicAtT q1 q2 q3 q4 ts ! i)))
        = fst (splitCubicAtT q1 q2 q3 q4 ts ! (i + 1))"
      unfolding sc
      using splitCubicAtT'_last [of _ ts ex ey fx fy gx gy hx hy]
        splitCubicAtT'_first [of _ ts ex ey fx fy gx gy hx hy]
      by (simp del: nth_Cons_Suc)
  qed
  show ?thesis using Q C by (simp add: Let_def)
qed

theorem splitAtT_chain_witness:
  "splitQuadraticAtT (0, 0) (50, 100) (100, 0) [1 / 2, 3 / 4]
     = [((0, 0), (25, 50), (50, 50)),
        ((50, 50), (125 / 2, 50), (75, 75 / 2)),
        ((75, 75 / 2), (175 / 2, 25), (100, 0))]
   \<and> snd (snd (splitQuadraticAtT (0, 0) (50, 100) (100, 0) [1 / 2, 3 / 4] ! 0))
       = fst (splitQuadraticAtT (0, 0) (50, 100) (100, 0) [1 / 2, 3 / 4] ! 1)
   \<and> splitCubicAtT (0, 0) (25, 100) (75, 100) (100, 0) [1 / 2]
     = [((0, 0), (25 / 2, 50), (125 / 4, 75), (50, 75)),
        ((50, 75), (275 / 4, 75), (175 / 2, 50), (100, 0))]
   \<and> snd (snd (snd (splitCubicAtT (0, 0) (25, 100) (75, 100) (100, 0) [1 / 2] ! 0)))
       = fst (splitCubicAtT (0, 0) (25, 100) (75, 100) (100, 0) [1 / 2] ! 1)"
proof -
  have u2: "[0 ..< 3] = [0, 1, 2]" "[0 ..< 2] = [0, 1]"
    by (simp_all add: upt_rec)
  have q: "splitQuadraticAtT (0, 0) (50, 100) (100, 0) [1 / 2, 3 / 4]
     = [((0, 0), (25, 50), (50, 50)),
        ((50, 50), (125 / 2, 50), (75, 75 / 2)),
        ((75, 75 / 2), (175 / 2, 25), (100, 0))]"
    by (simp add: splitQuadraticAtT_def splitQuadraticAtT'_def calcQuadraticParameters_def
        calcQuadraticPoints_def Let_def u2)
  have c: "splitCubicAtT (0, 0) (25, 100) (75, 100) (100, 0) [1 / 2]
     = [((0, 0), (25 / 2, 50), (125 / 4, 75), (50, 75)),
        ((50, 75), (275 / 4, 75), (175 / 2, 50), (100, 0))]"
    by (simp add: splitCubicAtT_def splitCubicAtT'_def calcCubicParameters_def
        calcCubicPoints_def Let_def u2)
  have "snd (snd (splitQuadraticAtT (0, 0) (50, 100) (100, 0) [1 / 2, 3 / 4] ! 0))
       = fst (splitQuadraticAtT (0, 0) (50, 100) (100, 0) [1 / 2, 3 / 4] ! 1)"
    and "snd (snd (snd (splitCubicAtT (0, 0) (25, 100) (75, 100) (100, 0) [1 / 2] ! 0)))
       = fst (splitCubicAtT (0, 0) (25, 100) (75, 100) (100, 0) [1 / 2] ! 1)"
    using splitAtT_chain [of "(0, 0)" "(50, 100)" "(100, 0)" "[1 / 2, 3 / 4]"
        "(0, 0)" "(25, 100)" "(75, 100)" "(100, 0)"]
      splitAtT_chain [of "(0, 0)" "(50, 100)" "(100, 0)" "[1 / 2]"
        "(0, 0)" "(25, 100)" "(75, 100)" "(100, 0)"]
    by (simp_all add: Let_def)
  with q c show ?thesis by simp
qed

subsection \<open>Bounding boxes\<close>

text \<open>
  A differentiable function on \<open>[0, 1]\<close> takes its largest and its smallest value at
  an end of the interval or at an interior zero of its derivative.
\<close>

lemma unit_interval_max:
  fixes f f' :: "real \<Rightarrow> real"
  assumes d: "\<And>x. DERIV f x :> f' x" and t: "0 \<le> t" "t \<le> 1"
  shows "\<exists>s. f t \<le> f s \<and> (s = 0 \<or> s = 1 \<or> (0 < s \<and> s < 1 \<and> f' s = 0))"
proof -
  have "\<forall>x. 0 \<le> x \<and> x \<le> 1 \<longrightarrow> isCont f x"
    using d DERIV_isCont by blast
  then obtain s where s: "0 \<le> s" "s \<le> 1" and mx: "\<forall>x. 0 \<le> x \<and> x \<le> 1 \<longrightarrow> f x \<le> f s"
    using isCont_eq_Ub [of 0 1 f] by auto
  have ts: "f t \<le> f s"
    using mx t by blast
  show ?thesis
  proof (cases "s = 0 \<or> s = 1")
    case True
    then show ?thesis using ts by blast
  next
    case False
    then have i: "0 < s" "s < 1"
      using s by auto
    define e where "e = min s (1 - s)"
    have e: "0 < e"
      using i by (simp add: e_def)
    have "\<forall>y. \<bar>s - y\<bar> < e \<longrightarrow> f y \<le> f s"
    proof (intro allI impI)
      fix y
      assume "\<bar>s - y\<bar> < e"
      then have "0 \<le> y \<and> y \<le> 1"
        by (auto simp add: e_def abs_if split: if_splits)
      then show "f y \<le> f s"
        using mx by blast
    qed
    then have "f' s = 0"
      using DERIV_local_max [OF d e] by blast
    then show ?thesis
      using ts i by blast
  qed
qed

lemma unit_interval_min:
  fixes f f' :: "real \<Rightarrow> real"
  assumes d: "\<And>x. DERIV f x :> f' x" and t: "0 \<le> t" "t \<le> 1"
  shows "\<exists>s. f s \<le> f t \<and> (s = 0 \<or> s = 1 \<or> (0 < s \<and> s < 1 \<and> f' s = 0))"
proof -
  have "\<And>x. DERIV (\<lambda>x. - f x) x :> - f' x"
    using d by (rule DERIV_minus)
  from unit_interval_max [of "\<lambda>x. - f x" "\<lambda>x. - f' x", OF this t]
  show ?thesis by simp
qed

lemma solveQuadratic_has_root:
  assumes r: "A * s\<^sup>2 + B * s + C = 0"
    and ex: "1 / 10 ^ 10 \<le> \<bar>A\<bar> \<or> (A = 0 \<and> 1 / 10 ^ 10 \<le> \<bar>B\<bar>)"
  shows "s \<in> set (solveQuadratic A B C)"
  using ex
proof
  assume A: "1 / 10 ^ 10 \<le> \<bar>A\<bar>"
  then have A0: "A \<noteq> 0" by auto
  define w where "w = 2 * A * s + B"
  have C: "C = - (A * s\<^sup>2 + B * s)"
    using r by linarith
  have D: "B * B - 4 * A * C = w\<^sup>2"
    unfolding C by (simp add: w_def power2_eq_square algebra_simps)
  then have D0: "0 \<le> B * B - 4 * A * C" by simp
  have sq: "sqrt (B * B - 4 * A * C) = \<bar>w\<bar>"
    by (simp add: D)
  have "s = (- B + \<bar>w\<bar>) / 2 / A \<or> s = (- B - \<bar>w\<bar>) / 2 / A"
    using A0 by (auto simp add: w_def abs_if field_simps)
  then show ?thesis
    using A D0 sq by (auto simp add: solveQuadratic_def epsilon_def Let_def)
next
  assume l: "A = 0 \<and> 1 / 10 ^ 10 \<le> \<bar>B\<bar>"
  then have B0: "B \<noteq> 0" by auto
  have "s = - C / B"
    using r l B0 by (simp add: field_simps)
  then show ?thesis
    using l by (simp add: solveQuadratic_def epsilon_def)
qed

lemma cubic_DERIV:
  fixes a b c d :: real
  shows "DERIV (\<lambda>t. a * t * t * t + b * t * t + c * t + d) x
           :> (a * 3) * x\<^sup>2 + (b * 2) * x + c"
  by (auto intro!: derivative_eq_intros simp add: power2_eq_square algebra_simps)

lemma quadratic_DERIV:
  fixes a b c :: real
  shows "DERIV (\<lambda>t. a * t * t + b * t + c) x :> (a * 2) * x + b"
  by (auto intro!: derivative_eq_intros simp add: algebra_simps)

lemma cubic_axis_upper:
  fixes a b c d :: real
  assumes ex: "1 / 10 ^ 10 \<le> \<bar>a * 3\<bar> \<or> (a = 0 \<and> (1 / 10 ^ 10 \<le> \<bar>b * 2\<bar> \<or> b = 0))"
    and t: "0 \<le> t" "t \<le> 1"
  shows "\<exists>s. (s = 0 \<or> s = 1
            \<or> s \<in> set (filter (\<lambda>t. 0 \<le> t \<and> t < 1) (solveQuadratic (a * 3) (b * 2) c)))
          \<and> a * t * t * t + b * t * t + c * t + d \<le> a * s * s * s + b * s * s + c * s + d"
proof -
  obtain s where le: "a * t * t * t + b * t * t + c * t + d
        \<le> a * s * s * s + b * s * s + c * s + d"
    and s: "s = 0 \<or> s = 1 \<or> (0 < s \<and> s < 1 \<and> (a * 3) * s\<^sup>2 + (b * 2) * s + c = 0)"
    using unit_interval_max [of "\<lambda>t. a * t * t * t + b * t * t + c * t + d"
        "\<lambda>x. (a * 3) * x\<^sup>2 + (b * 2) * x + c" t, OF cubic_DERIV t]
    by blast
  show ?thesis
  proof (cases "s = 0 \<or> s = 1")
    case True
    then show ?thesis using le by blast
  next
    case False
    then have i: "0 < s" "s < 1" and r: "(a * 3) * s\<^sup>2 + (b * 2) * s + c = 0"
      using s by auto
    show ?thesis
    proof (cases "a = 0 \<and> b = 0")
      case True
      then have "c = 0" using r by simp
      then have "a * t * t * t + b * t * t + c * t + d
          \<le> a * 0 * 0 * 0 + b * 0 * 0 + c * 0 + d"
        using True by simp
      then show ?thesis by blast
    next
      case False
      then have "1 / 10 ^ 10 \<le> \<bar>a * 3\<bar> \<or> (a * 3 = 0 \<and> 1 / 10 ^ 10 \<le> \<bar>b * 2\<bar>)"
        using ex by auto
      then have "s \<in> set (solveQuadratic (a * 3) (b * 2) c)"
        using solveQuadratic_has_root [OF r] by blast
      then have "s \<in> set (filter (\<lambda>t. 0 \<le> t \<and> t < 1) (solveQuadratic (a * 3) (b * 2) c))"
        using i by simp
      then show ?thesis using le by blast
    qed
  qed
qed

lemma cubic_axis_lower:
  fixes a b c d :: real
  assumes ex: "1 / 10 ^ 10 \<le> \<bar>a * 3\<bar> \<or> (a = 0 \<and> (1 / 10 ^ 10 \<le> \<bar>b * 2\<bar> \<or> b = 0))"
    and t: "0 \<le> t" "t \<le> 1"
  shows "\<exists>s. (s = 0 \<or> s = 1
            \<or> s \<in> set (filter (\<lambda>t. 0 \<le> t \<and> t < 1) (solveQuadratic (a * 3) (b * 2) c)))
          \<and> a * s * s * s + b * s * s + c * s + d \<le> a * t * t * t + b * t * t + c * t + d"
proof -
  obtain s where le: "a * s * s * s + b * s * s + c * s + d
        \<le> a * t * t * t + b * t * t + c * t + d"
    and s: "s = 0 \<or> s = 1 \<or> (0 < s \<and> s < 1 \<and> (a * 3) * s\<^sup>2 + (b * 2) * s + c = 0)"
    using unit_interval_min [of "\<lambda>t. a * t * t * t + b * t * t + c * t + d"
        "\<lambda>x. (a * 3) * x\<^sup>2 + (b * 2) * x + c" t, OF cubic_DERIV t]
    by blast
  show ?thesis
  proof (cases "s = 0 \<or> s = 1")
    case True
    then show ?thesis using le by blast
  next
    case False
    then have i: "0 < s" "s < 1" and r: "(a * 3) * s\<^sup>2 + (b * 2) * s + c = 0"
      using s by auto
    show ?thesis
    proof (cases "a = 0 \<and> b = 0")
      case True
      then have "c = 0" using r by simp
      then have "a * 0 * 0 * 0 + b * 0 * 0 + c * 0 + d
          \<le> a * t * t * t + b * t * t + c * t + d"
        using True by simp
      then show ?thesis by blast
    next
      case False
      then have "1 / 10 ^ 10 \<le> \<bar>a * 3\<bar> \<or> (a * 3 = 0 \<and> 1 / 10 ^ 10 \<le> \<bar>b * 2\<bar>)"
        using ex by auto
      then have "s \<in> set (solveQuadratic (a * 3) (b * 2) c)"
        using solveQuadratic_has_root [OF r] by blast
      then have "s \<in> set (filter (\<lambda>t. 0 \<le> t \<and> t < 1) (solveQuadratic (a * 3) (b * 2) c))"
        using i by simp
      then show ?thesis using le by blast
    qed
  qed
qed

lemma quadratic_axis_upper:
  fixes a b c :: real
  assumes t: "0 \<le> t" "t \<le> 1"
  shows "\<exists>s. (s = 0 \<or> s = 1
            \<or> s \<in> set (filter (\<lambda>t. 0 \<le> t \<and> t < 1) (if a * 2 \<noteq> 0 then [- b / (a * 2)] else [])))
          \<and> a * t * t + b * t + c \<le> a * s * s + b * s + c"
proof -
  obtain s where le: "a * t * t + b * t + c \<le> a * s * s + b * s + c"
    and s: "s = 0 \<or> s = 1 \<or> (0 < s \<and> s < 1 \<and> (a * 2) * s + b = 0)"
    using unit_interval_max [of "\<lambda>t. a * t * t + b * t + c" "\<lambda>x. (a * 2) * x + b" t,
        OF quadratic_DERIV t]
    by blast
  show ?thesis
  proof (cases "s = 0 \<or> s = 1")
    case True
    then show ?thesis using le by blast
  next
    case False
    then have i: "0 < s" "s < 1" and r: "(a * 2) * s + b = 0"
      using s by auto
    show ?thesis
    proof (cases "a * 2 = 0")
      case True
      then have "a = 0" "b = 0" using r by simp_all
      then have "a * t * t + b * t + c \<le> a * 0 * 0 + b * 0 + c"
        by simp
      then show ?thesis by blast
    next
      case False
      then have "s = - b / (a * 2)"
        using r by (simp add: field_simps)
      then have "s \<in> set (filter (\<lambda>t. 0 \<le> t \<and> t < 1)
          (if a * 2 \<noteq> 0 then [- b / (a * 2)] else []))"
        using i False by simp
      then show ?thesis using le by blast
    qed
  qed
qed

lemma quadratic_axis_lower:
  fixes a b c :: real
  assumes t: "0 \<le> t" "t \<le> 1"
  shows "\<exists>s. (s = 0 \<or> s = 1
            \<or> s \<in> set (filter (\<lambda>t. 0 \<le> t \<and> t < 1) (if a * 2 \<noteq> 0 then [- b / (a * 2)] else [])))
          \<and> a * s * s + b * s + c \<le> a * t * t + b * t + c"
proof -
  obtain s where le: "a * s * s + b * s + c \<le> a * t * t + b * t + c"
    and s: "s = 0 \<or> s = 1 \<or> (0 < s \<and> s < 1 \<and> (a * 2) * s + b = 0)"
    using unit_interval_min [of "\<lambda>t. a * t * t + b * t + c" "\<lambda>x. (a * 2) * x + b" t,
        OF quadratic_DERIV t]
    by blast
  show ?thesis
  proof (cases "s = 0 \<or> s = 1")
    case True
    then show ?thesis using le by blast
  next
    case False
    then have i: "0 < s" "s < 1" and r: "(a * 2) * s + b = 0"
      using s by auto
    show ?thesis
    proof (cases "a * 2 = 0")
      case True
      then have "a = 0" "b = 0" using r by simp_all
      then have "a * 0 * 0 + b * 0 + c \<le> a * t * t + b * t + c"
        by simp
      then show ?thesis by blast
    next
      case False
      then have "s = - b / (a * 2)"
        using r by (simp add: field_simps)
      then have "s \<in> set (filter (\<lambda>t. 0 \<le> t \<and> t < 1)
          (if a * 2 \<noteq> 0 then [- b / (a * 2)] else []))"
        using i False by simp
      then show ?thesis using le by blast
    qed
  qed
qed

lemma calcBounds_member:
  assumes "q \<in> set pts"
  shows "fst (calcBounds pts) \<le> fst q \<and> fst q \<le> fst (snd (snd (calcBounds pts)))
       \<and> fst (snd (calcBounds pts)) \<le> snd q \<and> snd q \<le> snd (snd (snd (calcBounds pts)))"
  using assms by (simp add: calcBounds_def Let_def)

lemma calcQuadraticBounds_contains:
  assumes t: "0 \<le> t" "t \<le> 1"
  shows "fst (calcQuadraticBounds p1 p2 p3) \<le> fst (quadraticPointAtT p1 p2 p3 t)
       \<and> fst (quadraticPointAtT p1 p2 p3 t) \<le> fst (snd (snd (calcQuadraticBounds p1 p2 p3)))
       \<and> fst (snd (calcQuadraticBounds p1 p2 p3)) \<le> snd (quadraticPointAtT p1 p2 p3 t)
       \<and> snd (quadraticPointAtT p1 p2 p3 t)
           \<le> snd (snd (snd (calcQuadraticBounds p1 p2 p3)))"
proof -
  obtain x1 y1 x2 y2 x3 y3 where p: "p1 = (x1, y1)" "p2 = (x2, y2)" "p3 = (x3, y3)"
    by (metis surj_pair)
  define bx where "bx = (x2 - x1) * 2"
  define "by" where "by = (y2 - y1) * 2"
  define ax where "ax = x3 - x1 - bx"
  define ay where "ay = y3 - y1 - by"
  define P where "P = (\<lambda>t. (ax * t * t + bx * t + x1, ay * t * t + by * t + y1))"
  define rx where "rx = (if ax * 2 \<noteq> 0 then [- bx / (ax * 2)] else [])"
  define ry where "ry = (if ay * 2 \<noteq> 0 then [- by / (ay * 2)] else [])"
  define pts where "pts = map P (filter (\<lambda>t. 0 \<le> t \<and> t < 1) (rx @ ry)) @ [p1, p3]"
  have prm: "calcQuadraticParameters p1 p2 p3 = ((ax, ay), (bx, by), (x1, y1))"
    by (simp add: calcQuadraticParameters_def p Let_def ax_def ay_def bx_def by_def)
  have qb: "calcQuadraticBounds p1 p2 p3 = calcBounds pts"
    unfolding calcQuadraticBounds_def prm
    by (simp only: prod.case Let_def pts_def P_def rx_def ry_def)
  have pt: "quadraticPointAtT p1 p2 p3 t = P t"
    by (simp add: quadraticPointAtT_def p Let_def P_def ax_def ay_def bx_def by_def
        algebra_simps)
  have P0: "P 0 = p1" and P1: "P 1 = p3"
    by (simp_all add: P_def p ax_def ay_def bx_def by_def)
  have memx: "P s \<in> set pts"
    if "s = 0 \<or> s = 1 \<or> s \<in> set (filter (\<lambda>t. 0 \<le> t \<and> t < 1) rx)" for s
    using that P0 P1 by (auto simp add: pts_def)
  have memy: "P s \<in> set pts"
    if "s = 0 \<or> s = 1 \<or> s \<in> set (filter (\<lambda>t. 0 \<le> t \<and> t < 1) ry)" for s
    using that P0 P1 by (auto simp add: pts_def)
  obtain s1 where c1: "s1 = 0 \<or> s1 = 1 \<or> s1 \<in> set (filter (\<lambda>t. 0 \<le> t \<and> t < 1) rx)"
    and l1: "ax * t * t + bx * t + x1 \<le> ax * s1 * s1 + bx * s1 + x1"
    using quadratic_axis_upper [OF t, of ax bx x1] unfolding rx_def by blast
  obtain s2 where c2: "s2 = 0 \<or> s2 = 1 \<or> s2 \<in> set (filter (\<lambda>t. 0 \<le> t \<and> t < 1) rx)"
    and l2: "ax * s2 * s2 + bx * s2 + x1 \<le> ax * t * t + bx * t + x1"
    using quadratic_axis_lower [OF t, of ax bx x1] unfolding rx_def by blast
  obtain s3 where c3: "s3 = 0 \<or> s3 = 1 \<or> s3 \<in> set (filter (\<lambda>t. 0 \<le> t \<and> t < 1) ry)"
    and l3: "ay * t * t + by * t + y1 \<le> ay * s3 * s3 + by * s3 + y1"
    using quadratic_axis_upper [OF t, of ay "by" y1] unfolding ry_def by blast
  obtain s4 where c4: "s4 = 0 \<or> s4 = 1 \<or> s4 \<in> set (filter (\<lambda>t. 0 \<le> t \<and> t < 1) ry)"
    and l4: "ay * s4 * s4 + by * s4 + y1 \<le> ay * t * t + by * t + y1"
    using quadratic_axis_lower [OF t, of ay "by" y1] unfolding ry_def by blast
  have u1: "fst (P t) \<le> fst (snd (snd (calcBounds pts)))"
    using calcBounds_member [OF memx [OF c1]] l1 by (simp add: P_def)
  have u2: "fst (calcBounds pts) \<le> fst (P t)"
    using calcBounds_member [OF memx [OF c2]] l2 by (simp add: P_def)
  have u3: "snd (P t) \<le> snd (snd (snd (calcBounds pts)))"
    using calcBounds_member [OF memy [OF c3]] l3 by (simp add: P_def)
  have u4: "fst (snd (calcBounds pts)) \<le> snd (P t)"
    using calcBounds_member [OF memy [OF c4]] l4 by (simp add: P_def)
  show ?thesis
    unfolding qb pt using u1 u2 u3 u4 by blast
qed

lemma calcQuadraticBounds_ordered:
  "fst (calcQuadraticBounds p1 p2 p3) \<le> fst (snd (snd (calcQuadraticBounds p1 p2 p3)))
   \<and> fst (snd (calcQuadraticBounds p1 p2 p3))
       \<le> snd (snd (snd (calcQuadraticBounds p1 p2 p3)))"
  using calcQuadraticBounds_contains [of 0 p1 p2 p3] by linarith

lemma calcCubicBounds_ordered:
  "fst (calcCubicBounds p1 p2 p3 p4) \<le> fst (snd (snd (calcCubicBounds p1 p2 p3 p4)))
   \<and> fst (snd (calcCubicBounds p1 p2 p3 p4))
       \<le> snd (snd (snd (calcCubicBounds p1 p2 p3 p4)))"
proof -
  obtain ax ay bx "by" cx cy dx dy where
    prm: "calcCubicParameters p1 p2 p3 p4 = ((ax, ay), (bx, by), (cx, cy), (dx, dy))"
    by (metis surj_pair)
  define pts where "pts =
    map (\<lambda>t. (ax * t * t * t + bx * t * t + cx * t + dx,
              ay * t * t * t + by * t * t + cy * t + dy))
      (filter (\<lambda>t. 0 \<le> t \<and> t < 1) (solveQuadratic (ax * 3) (bx * 2) cx)
       @ filter (\<lambda>t. 0 \<le> t \<and> t < 1) (solveQuadratic (ay * 3) (by * 2) cy))
    @ [p1, p4]"
  have qb: "calcCubicBounds p1 p2 p3 p4 = calcBounds pts"
    unfolding calcCubicBounds_def prm
    by (simp only: prod.case Let_def pts_def)
  have "p1 \<in> set pts"
    by (simp add: pts_def)
  from calcBounds_member [OF this] show ?thesis
    unfolding qb by linarith
qed

lemma unit_cube:
  fixes t :: real
  assumes "0 \<le> t" "t \<le> 1"
  shows "0 \<le> t * t * t \<and> t * t * t \<le> 1 \<and> 0 \<le> t * t \<and> t * t \<le> 1"
proof -
  have a: "0 \<le> t * t" using assms by simp
  have b: "t * t \<le> 1" using assms by (simp add: mult_le_one)
  have c: "0 \<le> t * t * t" using a assms by simp
  have d: "t * t * t \<le> 1" using b assms a by (simp add: mult_le_one)
  show ?thesis using a b c d by simp
qed

lemma scaled_le_abs:
  fixes a u :: real
  assumes "\<bar>u\<bar> \<le> 1"
  shows "a * u \<le> \<bar>a\<bar>" and "- \<bar>a\<bar> \<le> a * u"
proof -
  have "\<bar>a * u\<bar> \<le> \<bar>a\<bar> * 1"
    unfolding abs_mult using assms by (intro mult_left_mono) simp_all
  then show "a * u \<le> \<bar>a\<bar>" and "- \<bar>a\<bar> \<le> a * u"
    by (simp_all add: abs_le_iff) 
qed

lemma cubic_axis_upper_slack:
  fixes a b c d :: real
  assumes t: "0 \<le> t" "t \<le> 1"
  shows "\<exists>s. (s = 0 \<or> s = 1
            \<or> s \<in> set (filter (\<lambda>t. 0 \<le> t \<and> t < 1) (solveQuadratic (a * 3) (b * 2) c)))
          \<and> a * t * t * t + b * t * t + c * t + d
              \<le> a * s * s * s + b * s * s + c * s + d + 1 / 10 ^ 10"
proof (cases "1 / 10 ^ 10 \<le> \<bar>a * 3\<bar>")
  case True
  then obtain s where c1: "s = 0 \<or> s = 1
        \<or> s \<in> set (filter (\<lambda>t. 0 \<le> t \<and> t < 1) (solveQuadratic (a * 3) (b * 2) c))"
    and l1: "a * t * t * t + b * t * t + c * t + d \<le> a * s * s * s + b * s * s + c * s + d"
    using cubic_axis_upper [of a b t c d] t by blast
  have "(0 :: real) \<le> 1 / 10 ^ 10" by simp
  then have "a * t * t * t + b * t * t + c * t + d
      \<le> a * s * s * s + b * s * s + c * s + d + 1 / 10 ^ 10"
    using l1 by linarith
  then show ?thesis
    using c1 by blast
next
  case na: False
  then have a3: "\<bar>a\<bar> < 1 / 10 ^ 10 / 3" by simp
  have tc: "0 \<le> t * t * t" "t * t * t \<le> 1" "0 \<le> t * t" "t * t \<le> 1"
    using unit_cube [OF t] by simp_all
  show ?thesis
  proof (cases "1 / 10 ^ 10 \<le> \<bar>b * 2\<bar>")
    case True
    then have b0: "b * 2 \<noteq> 0" by auto
    have sq: "solveQuadratic (a * 3) (b * 2) c = [- c / (b * 2)]"
      using na True by (simp add: solveQuadratic_def epsilon_def)
    obtain s where c1: "s = 0 \<or> s = 1
          \<or> s \<in> set (filter (\<lambda>t. 0 \<le> t \<and> t < 1) [- c / (b * 2)])"
      and l1: "b * t * t + c * t + d \<le> b * s * s + c * s + d"
      using quadratic_axis_upper [OF t, of b c d] b0 by auto
    have s: "0 \<le> s" "s \<le> 1"
      using c1 by (auto split: if_splits)
    have sc: "0 \<le> s * s * s" "s * s * s \<le> 1"
      using unit_cube [OF s] by simp_all
    have "\<bar>t * t * t - s * s * s\<bar> \<le> 1"
      using tc sc by (intro abs_leI) linarith+
    from scaled_le_abs(1) [OF this, of a]
    have "a * (t * t * t) \<le> a * (s * s * s) + \<bar>a\<bar>"
      by (simp add: algebra_simps)
    then have "a * t * t * t + b * t * t + c * t + d
        \<le> a * s * s * s + b * s * s + c * s + d + 1 / 10 ^ 10"
      using l1 a3 by (simp add: mult.assoc)
    then show ?thesis
      using c1 unfolding sq by blast
  next
    case nb: False
    then have b2: "\<bar>b\<bar> < 1 / 10 ^ 10 / 2" by simp
    define g where "g = (\<lambda>t. a * t * t * t + b * t * t + c * t + d)"
    have dev: "g t = (1 - t) * g 0 + t * g 1 + a * (t * t * t - t) + b * (t * t - t)"
      by (simp add: g_def algebra_simps)
    have "\<bar>t * t * t - t\<bar> \<le> 1"
      using tc t by (intro abs_leI) linarith+
    moreover have "\<bar>t * t - t\<bar> \<le> 1"
      using tc t by (intro abs_leI) linarith+
    ultimately have "\<bar>t * t * t - t\<bar> \<le> 1" "\<bar>t * t - t\<bar> \<le> 1"
      by blast+
    then have e: "a * (t * t * t - t) \<le> \<bar>a\<bar>" "b * (t * t - t) \<le> \<bar>b\<bar>"
      using scaled_le_abs(1) by blast+
    have "(1 - t) * g 0 + t * g 1 \<le> max (g 0) (g 1)"
    proof (cases "g 0 \<le> g 1")
      case True
      then have "(1 - t) * g 0 \<le> (1 - t) * g 1"
        using t by (intro mult_left_mono) simp_all
      then show ?thesis using True by (simp add: algebra_simps)
    next
      case False
      then have "t * g 1 \<le> t * g 0"
        using t by (intro mult_left_mono) simp_all
      then show ?thesis using False by (simp add: algebra_simps)
    qed
    then have "g t \<le> max (g 0) (g 1) + 1 / 10 ^ 10"
      using dev e a3 b2 by simp
    then have "g t \<le> g 0 + 1 / 10 ^ 10 \<or> g t \<le> g 1 + 1 / 10 ^ 10"
      by (simp add: max_def split: if_splits)
    then show ?thesis
      unfolding g_def by blast
  qed
qed

lemma cubic_axis_lower_slack:
  fixes a b c d :: real
  assumes t: "0 \<le> t" "t \<le> 1"
  shows "\<exists>s. (s = 0 \<or> s = 1
            \<or> s \<in> set (filter (\<lambda>t. 0 \<le> t \<and> t < 1) (solveQuadratic (a * 3) (b * 2) c)))
          \<and> a * s * s * s + b * s * s + c * s + d - 1 / 10 ^ 10
              \<le> a * t * t * t + b * t * t + c * t + d"
proof (cases "1 / 10 ^ 10 \<le> \<bar>a * 3\<bar>")
  case True
  then obtain s where c1: "s = 0 \<or> s = 1
        \<or> s \<in> set (filter (\<lambda>t. 0 \<le> t \<and> t < 1) (solveQuadratic (a * 3) (b * 2) c))"
    and l1: "a * s * s * s + b * s * s + c * s + d \<le> a * t * t * t + b * t * t + c * t + d"
    using cubic_axis_lower [of a b t c d] t by blast
  have "(0 :: real) \<le> 1 / 10 ^ 10" by simp
  then have "a * s * s * s + b * s * s + c * s + d - 1 / 10 ^ 10
      \<le> a * t * t * t + b * t * t + c * t + d"
    using l1 by linarith
  then show ?thesis
    using c1 by blast
next
  case na: False
  then have a3: "\<bar>a\<bar> < 1 / 10 ^ 10 / 3" by simp
  have tc: "0 \<le> t * t * t" "t * t * t \<le> 1" "0 \<le> t * t" "t * t \<le> 1"
    using unit_cube [OF t] by simp_all
  show ?thesis
  proof (cases "1 / 10 ^ 10 \<le> \<bar>b * 2\<bar>")
    case True
    then have b0: "b * 2 \<noteq> 0" by auto
    have sq: "solveQuadratic (a * 3) (b * 2) c = [- c / (b * 2)]"
      using na True by (simp add: solveQuadratic_def epsilon_def)
    obtain s where c1: "s = 0 \<or> s = 1
          \<or> s \<in> set (filter (\<lambda>t. 0 \<le> t \<and> t < 1) [- c / (b * 2)])"
      and l1: "b * s * s + c * s + d \<le> b * t * t + c * t + d"
      using quadratic_axis_lower [OF t, of b c d] b0 by auto
    have s: "0 \<le> s" "s \<le> 1"
      using c1 by (auto split: if_splits)
    have sc: "0 \<le> s * s * s" "s * s * s \<le> 1"
      using unit_cube [OF s] by simp_all
    have "\<bar>t * t * t - s * s * s\<bar> \<le> 1"
      using tc sc by (intro abs_leI) linarith+
    from scaled_le_abs(2) [OF this, of a]
    have "a * (s * s * s) - \<bar>a\<bar> \<le> a * (t * t * t)"
      by (simp add: algebra_simps)
    then have "a * s * s * s + b * s * s + c * s + d - 1 / 10 ^ 10
        \<le> a * t * t * t + b * t * t + c * t + d"
      using l1 a3 by (simp add: mult.assoc)
    then show ?thesis
      using c1 unfolding sq by blast
  next
    case nb: False
    then have b2: "\<bar>b\<bar> < 1 / 10 ^ 10 / 2" by simp
    define g where "g = (\<lambda>t. a * t * t * t + b * t * t + c * t + d)"
    have dev: "g t = (1 - t) * g 0 + t * g 1 + a * (t * t * t - t) + b * (t * t - t)"
      by (simp add: g_def algebra_simps)
    have "\<bar>t * t * t - t\<bar> \<le> 1"
      using tc t by (intro abs_leI) linarith+
    moreover have "\<bar>t * t - t\<bar> \<le> 1"
      using tc t by (intro abs_leI) linarith+
    ultimately have "\<bar>t * t * t - t\<bar> \<le> 1" "\<bar>t * t - t\<bar> \<le> 1"
      by blast+
    then have e: "- \<bar>a\<bar> \<le> a * (t * t * t - t)" "- \<bar>b\<bar> \<le> b * (t * t - t)"
      using scaled_le_abs(2) by blast+
    have "min (g 0) (g 1) \<le> (1 - t) * g 0 + t * g 1"
    proof (cases "g 0 \<le> g 1")
      case True
      then have "t * g 0 \<le> t * g 1"
        using t by (intro mult_left_mono) simp_all
      then show ?thesis using True by (simp add: algebra_simps)
    next
      case False
      then have "(1 - t) * g 1 \<le> (1 - t) * g 0"
        using t by (intro mult_left_mono) simp_all
      then show ?thesis using False by (simp add: algebra_simps)
    qed
    then have "min (g 0) (g 1) - 1 / 10 ^ 10 \<le> g t"
      using dev e a3 b2 by simp
    then have "g 0 - 1 / 10 ^ 10 \<le> g t \<or> g 1 - 1 / 10 ^ 10 \<le> g t"
      by (simp add: min_def split: if_splits)
    then show ?thesis
      unfolding g_def by blast
  qed
qed

lemma calcCubicBounds_points:
  assumes prm: "calcCubicParameters p1 p2 p3 p4 = ((ax, ay), (bx, by), (cx, cy), (dx, dy))"
  shows "cubicPointAtT p1 p2 p3 p4 t
           = (ax * t * t * t + bx * t * t + cx * t + dx,
              ay * t * t * t + by * t * t + cy * t + dy)"
    and "s = 0 \<or> s = 1
           \<or> s \<in> set (filter (\<lambda>t. 0 \<le> t \<and> t < 1) (solveQuadratic (ax * 3) (bx * 2) cx))
         \<Longrightarrow> fst (calcCubicBounds p1 p2 p3 p4) \<le> ax * s * s * s + bx * s * s + cx * s + dx
           \<and> ax * s * s * s + bx * s * s + cx * s + dx
               \<le> fst (snd (snd (calcCubicBounds p1 p2 p3 p4)))"
    and "s = 0 \<or> s = 1
           \<or> s \<in> set (filter (\<lambda>t. 0 \<le> t \<and> t < 1) (solveQuadratic (ay * 3) (by * 2) cy))
         \<Longrightarrow> fst (snd (calcCubicBounds p1 p2 p3 p4))
               \<le> ay * s * s * s + by * s * s + cy * s + dy
           \<and> ay * s * s * s + by * s * s + cy * s + dy
               \<le> snd (snd (snd (calcCubicBounds p1 p2 p3 p4)))"
proof -
  obtain x1 y1 x2 y2 x3 y3 x4 y4 where
    p: "p1 = (x1, y1)" "p2 = (x2, y2)" "p3 = (x3, y3)" "p4 = (x4, y4)"
    by (metis surj_pair)
  have v: "dx = x1" "dy = y1" "cx = (x2 - x1) * 3" "cy = (y2 - y1) * 3"
    "bx = (x3 - x2) * 3 - cx" "by = (y3 - y2) * 3 - cy"
    "ax = x4 - x1 - cx - bx" "ay = y4 - y1 - cy - by"
    using prm by (simp_all add: calcCubicParameters_def p Let_def)
  define P where "P = (\<lambda>t. (ax * t * t * t + bx * t * t + cx * t + dx,
                              ay * t * t * t + by * t * t + cy * t + dy))"
  define rx where "rx = filter (\<lambda>t. 0 \<le> t \<and> t < 1) (solveQuadratic (ax * 3) (bx * 2) cx)"
  define ry where "ry = filter (\<lambda>t. 0 \<le> t \<and> t < 1) (solveQuadratic (ay * 3) (by * 2) cy)"
  define pts where "pts = map P (rx @ ry) @ [p1, p4]"
  have qb: "calcCubicBounds p1 p2 p3 p4 = calcBounds pts"
    unfolding calcCubicBounds_def prm
    by (simp only: prod.case Let_def pts_def P_def rx_def ry_def)
  show "cubicPointAtT p1 p2 p3 p4 t
           = (ax * t * t * t + bx * t * t + cx * t + dx,
              ay * t * t * t + by * t * t + cy * t + dy)"
    by (simp add: cubicPointAtT_def p Let_def v algebra_simps)
  have P0: "P 0 = p1" and P1: "P 1 = p4"
    by (simp_all add: P_def p v)
  {
    assume "s = 0 \<or> s = 1 \<or> s \<in> set rx"
    then have "P s \<in> set pts"
      using P0 P1 by (auto simp add: pts_def)
    from calcBounds_member [OF this]
    show "fst (calcCubicBounds p1 p2 p3 p4) \<le> ax * s * s * s + bx * s * s + cx * s + dx
           \<and> ax * s * s * s + bx * s * s + cx * s + dx
               \<le> fst (snd (snd (calcCubicBounds p1 p2 p3 p4)))"
      unfolding qb by (simp add: P_def)
  }
  {
    assume "s = 0 \<or> s = 1 \<or> s \<in> set ry"
    then have "P s \<in> set pts"
      using P0 P1 by (auto simp add: pts_def)
    from calcBounds_member [OF this]
    show "fst (snd (calcCubicBounds p1 p2 p3 p4))
               \<le> ay * s * s * s + by * s * s + cy * s + dy
           \<and> ay * s * s * s + by * s * s + cy * s + dy
               \<le> snd (snd (snd (calcCubicBounds p1 p2 p3 p4)))"
      unfolding qb by (simp add: P_def)
  }
qed

lemma calcCubicBounds_contains_slack:
  assumes t: "0 \<le> t" "t \<le> 1"
  shows "fst (calcCubicBounds p1 p2 p3 p4) - 1 / 10 ^ 10 \<le> fst (cubicPointAtT p1 p2 p3 p4 t)
       \<and> fst (cubicPointAtT p1 p2 p3 p4 t)
           \<le> fst (snd (snd (calcCubicBounds p1 p2 p3 p4))) + 1 / 10 ^ 10
       \<and> fst (snd (calcCubicBounds p1 p2 p3 p4)) - 1 / 10 ^ 10
           \<le> snd (cubicPointAtT p1 p2 p3 p4 t)
       \<and> snd (cubicPointAtT p1 p2 p3 p4 t)
           \<le> snd (snd (snd (calcCubicBounds p1 p2 p3 p4))) + 1 / 10 ^ 10"
proof -
  obtain ax ay bx "by" cx cy dx dy where
    prm: "calcCubicParameters p1 p2 p3 p4 = ((ax, ay), (bx, by), (cx, cy), (dx, dy))"
    by (metis surj_pair)
  note pt = calcCubicBounds_points(1) [OF prm]
  note mx = calcCubicBounds_points(2) [OF prm]
  note my = calcCubicBounds_points(3) [OF prm]
  obtain s1 where "s1 = 0 \<or> s1 = 1
        \<or> s1 \<in> set (filter (\<lambda>t. 0 \<le> t \<and> t < 1) (solveQuadratic (ax * 3) (bx * 2) cx))"
    and l1: "ax * t * t * t + bx * t * t + cx * t + dx
        \<le> ax * s1 * s1 * s1 + bx * s1 * s1 + cx * s1 + dx + 1 / 10 ^ 10"
    using cubic_axis_upper_slack [OF t, of ax bx cx dx] by blast
  note u1 = mx [OF this(1)]
  obtain s2 where "s2 = 0 \<or> s2 = 1
        \<or> s2 \<in> set (filter (\<lambda>t. 0 \<le> t \<and> t < 1) (solveQuadratic (ax * 3) (bx * 2) cx))"
    and l2: "ax * s2 * s2 * s2 + bx * s2 * s2 + cx * s2 + dx - 1 / 10 ^ 10
        \<le> ax * t * t * t + bx * t * t + cx * t + dx"
    using cubic_axis_lower_slack [OF t, of ax bx cx dx] by blast
  note u2 = mx [OF this(1)]
  obtain s3 where "s3 = 0 \<or> s3 = 1
        \<or> s3 \<in> set (filter (\<lambda>t. 0 \<le> t \<and> t < 1) (solveQuadratic (ay * 3) (by * 2) cy))"
    and l3: "ay * t * t * t + by * t * t + cy * t + dy
        \<le> ay * s3 * s3 * s3 + by * s3 * s3 + cy * s3 + dy + 1 / 10 ^ 10"
    using cubic_axis_upper_slack [OF t, of ay "by" cy dy] by blast
  note u3 = my [OF this(1)]
  obtain s4 where "s4 = 0 \<or> s4 = 1
        \<or> s4 \<in> set (filter (\<lambda>t. 0 \<le> t \<and> t < 1) (solveQuadratic (ay * 3) (by * 2) cy))"
    and l4: "ay * s4 * s4 * s4 + by * s4 * s4 + cy * s4 + dy - 1 / 10 ^ 10
        \<le> ay * t * t * t + by * t * t + cy * t + dy"
    using cubic_axis_lower_slack [OF t, of ay "by" cy dy] by blast
  note u4 = my [OF this(1)]
  show ?thesis
    unfolding pt fst_conv snd_conv using u1 u2 u3 u4 l1 l2 l3 l4 by linarith
qed

lemma calcCubicBounds_contains_x:
  assumes prm: "calcCubicParameters p1 p2 p3 p4 = ((ax, ay), (bx, by), (cx, cy), (dx, dy))"
    and exx: "1 / 10 ^ 10 \<le> \<bar>ax * 3\<bar> \<or> (ax = 0 \<and> (1 / 10 ^ 10 \<le> \<bar>bx * 2\<bar> \<or> bx = 0))"
    and t: "0 \<le> t" "t \<le> 1"
  shows "fst (calcCubicBounds p1 p2 p3 p4) \<le> fst (cubicPointAtT p1 p2 p3 p4 t)
       \<and> fst (cubicPointAtT p1 p2 p3 p4 t) \<le> fst (snd (snd (calcCubicBounds p1 p2 p3 p4)))"
proof -
  note pt = calcCubicBounds_points(1) [OF prm]
  note mx = calcCubicBounds_points(2) [OF prm]
  obtain s1 where "s1 = 0 \<or> s1 = 1
        \<or> s1 \<in> set (filter (\<lambda>t. 0 \<le> t \<and> t < 1) (solveQuadratic (ax * 3) (bx * 2) cx))"
    and l1: "ax * t * t * t + bx * t * t + cx * t + dx
        \<le> ax * s1 * s1 * s1 + bx * s1 * s1 + cx * s1 + dx"
    using cubic_axis_upper [OF exx t, of cx dx] by blast
  note u1 = mx [OF this(1)]
  obtain s2 where "s2 = 0 \<or> s2 = 1
        \<or> s2 \<in> set (filter (\<lambda>t. 0 \<le> t \<and> t < 1) (solveQuadratic (ax * 3) (bx * 2) cx))"
    and l2: "ax * s2 * s2 * s2 + bx * s2 * s2 + cx * s2 + dx
        \<le> ax * t * t * t + bx * t * t + cx * t + dx"
    using cubic_axis_lower [OF exx t, of cx dx] by blast
  note u2 = mx [OF this(1)]
  show ?thesis
    unfolding pt fst_conv snd_conv using u1 u2 l1 l2 by linarith
qed

lemma calcCubicBounds_contains_y:
  assumes prm: "calcCubicParameters p1 p2 p3 p4 = ((ax, ay), (bx, by), (cx, cy), (dx, dy))"
    and exy: "1 / 10 ^ 10 \<le> \<bar>ay * 3\<bar> \<or> (ay = 0 \<and> (1 / 10 ^ 10 \<le> \<bar>by * 2\<bar> \<or> by = 0))"
    and t: "0 \<le> t" "t \<le> 1"
  shows "fst (snd (calcCubicBounds p1 p2 p3 p4)) \<le> snd (cubicPointAtT p1 p2 p3 p4 t)
       \<and> snd (cubicPointAtT p1 p2 p3 p4 t)
           \<le> snd (snd (snd (calcCubicBounds p1 p2 p3 p4)))"
proof -
  note pt = calcCubicBounds_points(1) [OF prm]
  note my = calcCubicBounds_points(3) [OF prm]
  obtain s3 where "s3 = 0 \<or> s3 = 1
        \<or> s3 \<in> set (filter (\<lambda>t. 0 \<le> t \<and> t < 1) (solveQuadratic (ay * 3) (by * 2) cy))"
    and l3: "ay * t * t * t + by * t * t + cy * t + dy
        \<le> ay * s3 * s3 * s3 + by * s3 * s3 + cy * s3 + dy"
    using cubic_axis_upper [OF exy t, of cy dy] by blast
  note u3 = my [OF this(1)]
  obtain s4 where "s4 = 0 \<or> s4 = 1
        \<or> s4 \<in> set (filter (\<lambda>t. 0 \<le> t \<and> t < 1) (solveQuadratic (ay * 3) (by * 2) cy))"
    and l4: "ay * s4 * s4 * s4 + by * s4 * s4 + cy * s4 + dy
        \<le> ay * t * t * t + by * t * t + cy * t + dy"
    using cubic_axis_lower [OF exy t, of cy dy] by blast
  note u4 = my [OF this(1)]
  show ?thesis
    unfolding pt fst_conv snd_conv using u3 u4 l3 l4 by linarith
qed

text \<open>
  C5, as amended. For \<open>t\<close> in \<open>[0, 1]\<close>, in exact real arithmetic: the rectangle of
  \<open>calcQuadraticBounds\<close> has \<open>xMin <= xMax\<close> and \<open>yMin <= yMax\<close> and contains the
  point of the quadratic at \<open>t\<close>. The rectangle of \<open>calcCubicBounds\<close> has
  \<open>xMin <= xMax\<close> and \<open>yMin <= yMax\<close>, and the point of the cubic at \<open>t\<close> lies in the
  rectangle enlarged by \<open>1e-10\<close> on every side; on an axis where the derivative
  \<open>3 a t^2 + 2 b t + c\<close> has \<open>|3a| >= 1e-10\<close>, or \<open>a = 0\<close> and (\<open>|2b| >= 1e-10\<close> or
  \<open>b = 0\<close>), so that \<open>solveQuadratic\<close> drops none of its zeros, the point lies within
  the rectangle on that axis.
\<close>

theorem bounds_contain_segment:
  assumes "0 \<le> t" and "t \<le> 1"
    and "calcQuadraticBounds p1 p2 p3 = (xMin, yMin, xMax, yMax)"
    and "quadraticPointAtT p1 p2 p3 t = (x, y)"
    and "calcCubicBounds q1 q2 q3 q4 = (xMin', yMin', xMax', yMax')"
    and "cubicPointAtT q1 q2 q3 q4 t = (x', y')"
    and "calcCubicParameters q1 q2 q3 q4 = ((ax, ay), (bx, by), (cx, cy), (dx, dy))"
  shows "(xMin \<le> xMax \<and> yMin \<le> yMax \<and> xMin \<le> x \<and> x \<le> xMax \<and> yMin \<le> y \<and> y \<le> yMax)
       \<and> (xMin' \<le> xMax' \<and> yMin' \<le> yMax')
       \<and> (xMin' - 1 / 10 ^ 10 \<le> x' \<and> x' \<le> xMax' + 1 / 10 ^ 10
          \<and> yMin' - 1 / 10 ^ 10 \<le> y' \<and> y' \<le> yMax' + 1 / 10 ^ 10)
       \<and> (1 / 10 ^ 10 \<le> \<bar>ax * 3\<bar> \<or> (ax = 0 \<and> (1 / 10 ^ 10 \<le> \<bar>bx * 2\<bar> \<or> bx = 0))
            \<longrightarrow> xMin' \<le> x' \<and> x' \<le> xMax')
       \<and> (1 / 10 ^ 10 \<le> \<bar>ay * 3\<bar> \<or> (ay = 0 \<and> (1 / 10 ^ 10 \<le> \<bar>by * 2\<bar> \<or> by = 0))
            \<longrightarrow> yMin' \<le> y' \<and> y' \<le> yMax')"
proof (intro conjI impI)
  note t = assms(1,2)
  note q = calcQuadraticBounds_contains [OF t, of p1 p2 p3, unfolded assms(3,4) fst_conv snd_conv]
  note qo = calcQuadraticBounds_ordered [of p1 p2 p3, unfolded assms(3) fst_conv snd_conv]
  note co = calcCubicBounds_ordered [of q1 q2 q3 q4, unfolded assms(5) fst_conv snd_conv]
  note cs = calcCubicBounds_contains_slack [OF t, of q1 q2 q3 q4,
      unfolded assms(5,6) fst_conv snd_conv]
  show "xMin \<le> xMax" "yMin \<le> yMax" using qo by simp_all
  show "xMin \<le> x" "x \<le> xMax" "yMin \<le> y" "y \<le> yMax" using q by simp_all
  show "xMin' \<le> xMax'" "yMin' \<le> yMax'" using co by simp_all
  show "xMin' - 1 / 10 ^ 10 \<le> x'" "x' \<le> xMax' + 1 / 10 ^ 10"
    "yMin' - 1 / 10 ^ 10 \<le> y'" "y' \<le> yMax' + 1 / 10 ^ 10"
    using cs by simp_all
next
  assume "1 / 10 ^ 10 \<le> \<bar>ax * 3\<bar> \<or> (ax = 0 \<and> (1 / 10 ^ 10 \<le> \<bar>bx * 2\<bar> \<or> bx = 0))"
  from calcCubicBounds_contains_x [OF assms(7) this assms(1,2),
      unfolded assms(5,6) fst_conv snd_conv]
  show "xMin' \<le> x'" "x' \<le> xMax'" by simp_all
next
  assume "1 / 10 ^ 10 \<le> \<bar>ay * 3\<bar> \<or> (ay = 0 \<and> (1 / 10 ^ 10 \<le> \<bar>by * 2\<bar> \<or> by = 0))"
  from calcCubicBounds_contains_y [OF assms(7) this assms(1,2),
      unfolded assms(5,6) fst_conv snd_conv]
  show "yMin' \<le> y'" "y' \<le> yMax'" by simp_all
qed

theorem bounds_contain_segment_witness:
  "calcQuadraticBounds (0, 0) (50, 100) (100, 0) = (0, 0, 100, 50)
   \<and> quadraticPointAtT (0, 0) (50, 100) (100, 0) (1 / 2) = (50, 50)
   \<and> calcCubicBounds (0, 0) (25, 100) (75, 100) (100, 0) = (0, 0, 100, 75)
   \<and> cubicPointAtT (0, 0) (25, 100) (75, 100) (100, 0) (1 / 2) = (50, 75)
   \<and> calcCubicParameters (0, 0) (25, 100) (75, 100) (100, 0)
       = ((- 50, 0), (75, - 300), (75, 300), (0, 0))
   \<and> (1 / 10 ^ 10 :: real) \<le> \<bar>- 50 * 3\<bar> \<and> (1 / 10 ^ 10 :: real) \<le> \<bar>- 300 * 2\<bar>"
proof -
  have qp: "calcQuadraticParameters (0, 0) (50, 100) (100, 0) = ((0, - 200), (100, 200), (0, 0))"
    by (simp add: calcQuadraticParameters_def)
  have "calcQuadraticBounds (0, 0) (50, 100) (100, 0)
      = calcBounds [(50, 50), (0, 0), (100, 0)]"
    by (simp add: calcQuadraticBounds_def qp)
  also have "\<dots> = (0, 0, 100, 50)"
    by (simp add: calcBounds_def)
  finally have e1: "calcQuadraticBounds (0, 0) (50, 100) (100, 0) = (0, 0, 100, 50)" .
  have e2: "quadraticPointAtT (0, 0) (50, 100) (100, 0) (1 / 2) = (50, 50)"
    by (simp add: quadraticPointAtT_def)
  have e5: "calcCubicParameters (0, 0) (25, 100) (75, 100) (100, 0)
       = ((- 50, 0), (75, - 300), (75, 300), (0, 0))"
    by (simp add: calcCubicParameters_def)
  have r: "150 < sqrt 67500"
    by (rule real_less_rsqrt) simp
  have sx: "filter (\<lambda>t. 0 \<le> t \<and> t < 1) (solveQuadratic (- 50 * 3) (75 * 2) 75) = []"
    using r by (simp add: solveQuadratic_def epsilon_def Let_def field_simps)
  have sy: "filter (\<lambda>t. 0 \<le> t \<and> t < 1) (solveQuadratic (0 * 3) (- 300 * 2) 300) = [1 / 2]"
    by (simp add: solveQuadratic_def epsilon_def)
  have "calcCubicBounds (0, 0) (25, 100) (75, 100) (100, 0)
      = calcBounds [(50, 75), (0, 0), (100, 0)]"
    unfolding calcCubicBounds_def e5
    apply (simp only: prod.case Let_def sx sy)
    apply simp
    done
  also have "\<dots> = (0, 0, 100, 75)"
    by (simp add: calcBounds_def)
  finally have e3: "calcCubicBounds (0, 0) (25, 100) (75, 100) (100, 0) = (0, 0, 100, 75)" .
  have e4: "cubicPointAtT (0, 0) (25, 100) (75, 100) (100, 0) (1 / 2) = (50, 75)"
    by (simp add: cubicPointAtT_def)
  show ?thesis
    using bounds_contain_segment [of "1 / 2", OF _ _ e1 e2 e3 e4 e5] e1 e2 e3 e4 e5
    by simp
qed

text \<open>
  C5, the claim as stated, fails for a cubic whose derivative \<open>solveQuadratic\<close> takes
  for a constant: with the control points \<open>(0,0), (1e-11,0), (1e-11,0), (0,0)\<close> the
  derivative in \<open>x\<close> is \<open>-6e-11 t + 3e-11\<close>, both coefficients are below \<open>epsilon\<close>,
  no zero is returned, and the rectangle is that of the two end points, the single
  point \<open>(0, 0)\<close>, while the curve at \<open>t = 1/2\<close> is at \<open>x = 7.5e-12\<close>.
\<close>

theorem calcCubicBounds_misses_point:
  "calcCubicBounds (0, 0) (1 / 10 ^ 11, 0) (1 / 10 ^ 11, 0) (0, 0) = (0, 0, 0, 0)
   \<and> cubicPointAtT (0, 0) (1 / 10 ^ 11, 0) (1 / 10 ^ 11, 0) (0, 0) (1 / 2)
       = (3 / (4 * 10 ^ 11), 0)
   \<and> (0 :: real) < 3 / (4 * 10 ^ 11)"
proof -
  have prm: "calcCubicParameters (0, 0) (1 / 10 ^ 11, 0) (1 / 10 ^ 11, 0) (0, 0)
      = ((0, 0), (- 3 / 10 ^ 11, 0), (3 / 10 ^ 11, 0), (0, 0))"
    by (simp add: calcCubicParameters_def)
  have sx: "solveQuadratic (0 * 3) (- 3 / 10 ^ 11 * 2) (3 / 10 ^ 11) = []"
    by (simp add: solveQuadratic_def epsilon_def)
  have sy: "solveQuadratic (0 * 3) (0 * 2) 0 = []"
    by (simp add: solveQuadratic_def epsilon_def)
  have "calcCubicBounds (0, 0) (1 / 10 ^ 11, 0) (1 / 10 ^ 11, 0) (0, 0)
      = calcBounds [(0, 0), (0, 0)]"
    unfolding calcCubicBounds_def prm
    apply (simp only: prod.case Let_def sx sy)
    apply simp
    done
  also have "\<dots> = (0, 0, 0, 0)"
    by (simp add: calcBounds_def)
  finally have b: "calcCubicBounds (0, 0) (1 / 10 ^ 11, 0) (1 / 10 ^ 11, 0) (0, 0)
      = (0, 0, 0, 0)" .
  have p: "cubicPointAtT (0, 0) (1 / 10 ^ 11, 0) (1 / 10 ^ 11, 0) (0, 0) (1 / 2)
       = (3 / (4 * 10 ^ 11), 0)"
    by (simp add: cubicPointAtT_def)
  show ?thesis
    using b p by simp
qed

subsection \<open>Intersections\<close>

lemma isclose_refl: "isclose x x"
  by (simp add: isclose_def)

text \<open>
  C2. The claim: for a vertical first line (\<open>ax\<close> close to \<open>bx\<close>), no degenerate
  segment and a second line that is not vertical, \<open>lineLineIntersections\<close> returns one
  Intersection with \<open>x = ax\<close> and \<open>y\<close> from the second line's equation with slope
  \<open>(dy - cy)/(dx - cx)\<close>. On the code that branch ends with NameError: at the segments
  \<open>(0,0)-(0,1)\<close> and \<open>(-1,0)-(1,1)\<close>, where the claim gives the point \<open>(0, 1/2)\<close>, and,
  by the lemma that follows, at every input of the branch.
\<close>

theorem lineLineIntersections_vertical_first:
  "lineLineIntersections (0, 0) (0, 1) (- 1, 0) (1, 1) = Inl NameError"
  by (simp add: lineLineIntersections_def isclose_def)

lemma lineLineIntersections_vertical_first_general:
  assumes "isclose ax bx" and "\<not> isclose cx dx"
    and "\<not> (isclose ax bx \<and> isclose ay by)" and "\<not> (isclose cx dx \<and> isclose cy dy)"
  shows "lineLineIntersections (ax, ay) (bx, by) (cx, cy) (dx, dy) = Inl NameError"
proof -
  have "isclose bx ax"
    using assms(1) by (simp add: isclose_def abs_minus_commute max.commute)
  then show ?thesis
    using assms by (simp add: lineLineIntersections_def)
qed

text \<open>
  C1. The claim: for a quadratic curve of three control points and a line,
  \<open>curveLineIntersections\<close> aligns the curve to the line, solves the resulting
  quadratic and returns one Intersection for each real root in \<open>[0, 1]\<close>, with the
  point of the untransformed curve. On the code the call ends with TypeError, whatever
  the alignment transform is: at the curve \<open>(0,0), (1,1), (2,0)\<close> and the line
  \<open>(0,0)-(2,0)\<close>, and, by the lemma that follows, at every quadratic curve and every
  line that is not empty.
\<close>

theorem curveLineIntersections_quadratic:
  "curveLineIntersections al [(0, 0), (1, 1), (2, 0)] [(0, 0), (2, 0)] = Inl TypeError"
  by (simp add: curveLineIntersections_def curve_line_intersections_t'_def
      alignment_transformation'_def calcCubicParameters_star_def Let_def)

lemma curveLineIntersections_quadratic_general:
  assumes "length curve = 3" and "line \<noteq> []"
  shows "curveLineIntersections al curve line = Inl TypeError"
proof -
  obtain p q r where c: "curve = [p, q, r]"
    using assms(1) by (auto simp: length_Suc_conv numeral_3_eq_3)
  show ?thesis
    using assms(2)
    by (simp add: c curveLineIntersections_def curve_line_intersections_t'_def
      alignment_transformation'_def calcCubicParameters_star_def Let_def)
qed

lemma segmentPointAtT_ValueError:
  "segmentPointAtT seg t = Inl ValueError \<longleftrightarrow> length seg \<notin> {2, 3, 4}"
  by (simp add: segmentPointAtT_def)

lemma segmentPointAtT_errors:
  "segmentPointAtT seg t = Inl e \<Longrightarrow> e = ValueError"
  by (auto simp add: segmentPointAtT_def split: if_splits)

lemma curveLineIntersections_loop_point_line:
  "curveLineIntersections_loop curve [p] ts = (if ts = [] then Inr [] else Inl TypeError)"
  by (cases ts) (simp_all add: line_t_of_pt'_star_def Let_def)

text \<open>
  C9. The claim: \<open>segmentPointAtT\<close> and \<open>segmentSegmentIntersections\<close> raise
  InvalidDegree (the ValueError of the code) exactly when a segment has a length other
  than 2, 3 or 4. It holds for \<open>segmentPointAtT\<close> (the two lemmas above). For
  \<open>segmentSegmentIntersections\<close> a cubic against a segment of one point is passed on to
  \<open>curveLineIntersections\<close>, which checks the length of the curve only: the call
  returns the empty list or ends with TypeError, never with ValueError, whatever the
  alignment transform \<open>al\<close>, the rectangle operations \<open>sect\<close> and \<open>area\<close> and the
  recursion limit \<open>n\<close> are.
\<close>

theorem segmentSegmentIntersections_one_point_line:
  "segmentSegmentIntersections n al sect area
      [(0, 0), (1, 2), (3, 2), (4, 0)] [(0, 1)] \<noteq> Inl ValueError"
  by (simp add: segmentSegmentIntersections_def curveLineIntersections_def
      curve_line_intersections_t'_def alignment_transformation'_def
      calcCubicParameters_star_def Let_def curveLineIntersections_loop_point_line
      split: prod.splits)

text \<open>Against an empty segment the same call ends with IndexError.\<close>

lemma segmentSegmentIntersections_empty_line:
  "segmentSegmentIntersections n al sect area
      [(0, 0), (1, 2), (3, 2), (4, 0)] [] = Inl IndexError"
  by (simp add: segmentSegmentIntersections_def curveLineIntersections_def
      curve_line_intersections_t'_def alignment_transformation'_def)

lemma map_result_Inr_set:
  "map_result f xs = Inr ys \<Longrightarrow> y \<in> set ys \<Longrightarrow> \<exists>x \<in> set xs. f x = Inr y"
proof (induction xs arbitrary: ys)
  case Nil
  then show ?case by simp
next
  case (Cons x xs)
  from Cons.prems(1) obtain z zs where
    z: "f x = Inr z" and zs: "map_result f xs = Inr zs" and ys: "ys = z # zs"
    by (cases "f x"; cases "map_result f xs") simp_all
  show ?case
  proof (cases "y = z")
    case True
    then show ?thesis using z by simp
  next
    case False
    then have "y \<in> set zs" using Cons.prems(2) ys by simp
    then show ?thesis using Cons.IH [OF zs] by auto
  qed
qed

text \<open>
  Two quadratics that cross at \<open>(1/100, 1/200)\<close>. Their bounding boxes are the same
  rectangle of area \<open>1/5000\<close>, below the precision \<open>1e-3\<close>, so the search stops at
  once and reports the midpoints of the two parameter ranges.
\<close>

lemma curveCurveIntersections_two_quadratics:
  "curveCurveIntersections 1 sectRect rectArea
      [(0, 0), (1 / 100, 0), (1 / 50, 1 / 100)] [(0, 1 / 100), (1 / 100, 1 / 100), (1 / 50, 0)]
     = Inr [\<lparr>pt = (1 / 100, 1 / 400), t1 = 1 / 2, t2 = 1 / 2\<rparr>]"
proof -
  have prm1: "calcQuadraticParameters (0, 0) (1 / 100, 0) (1 / 50, 1 / 100)
      = ((0, 1 / 100), (1 / 50, 0), (0, 0))"
    by (simp add: calcQuadraticParameters_def)
  have "calcQuadraticBounds (0, 0) (1 / 100, 0) (1 / 50, 1 / 100)
      = calcBounds [(0, 0), (0, 0), (1 / 50, 1 / 100)]"
    by (simp add: calcQuadraticBounds_def prm1)
  also have "\<dots> = (0, 0, 1 / 50, 1 / 100)"
    by (simp add: calcBounds_def)
  finally have b1: "curve_bounds' [(0, 0), (1 / 100, 0), (1 / 50, 1 / 100)]
      = Some (0, 0, 1 / 50, 1 / 100)"
    by (simp add: curve_bounds'_def)
  have prm2: "calcQuadraticParameters (0, 1 / 100) (1 / 100, 1 / 100) (1 / 50, 0)
      = ((0, - 1 / 100), (1 / 50, 0), (0, 1 / 100))"
    by (simp add: calcQuadraticParameters_def)
  have "calcQuadraticBounds (0, 1 / 100) (1 / 100, 1 / 100) (1 / 50, 0)
      = calcBounds [(0, 1 / 100), (0, 1 / 100), (1 / 50, 0)]"
    by (simp add: calcQuadraticBounds_def prm2)
  also have "\<dots> = (0, 0, 1 / 50, 1 / 100)"
    by (simp add: calcBounds_def)
  finally have b2: "curve_bounds' [(0, 1 / 100), (1 / 100, 1 / 100), (1 / 50, 0)]
      = Some (0, 0, 1 / 50, 1 / 100)"
    by (simp add: curve_bounds'_def)
  have sr: "sectRect (0, 0, 1 / 50, 1 / 100) (0, 0, 1 / 50, 1 / 100)"
    by (simp add: sectRect_def)
  have ra: "rectArea (0, 0, 1 / 50, 1 / 100) < 1 / 10 ^ 3"
    by (simp add: rectArea_def)
  have ts: "curve_curve_intersections_t' (Suc 0) sectRect rectArea
      [(0, 0), (1 / 100, 0), (1 / 50, 1 / 100)] [(0, 1 / 100), (1 / 100, 1 / 100), (1 / 50, 0)]
      (1 / 10 ^ 3) None None = Inr [(1 / 2, 1 / 2)]"
    apply (subst curve_curve_intersections_t'.simps)
    apply (simp only: b1 b2 Let_def option.case prod.case sr ra simp_thms if_True if_False)
    apply (simp add: midpoint_def)
    done
  have p1: "segmentPointAtT [(0, 0), (1 / 100, 0), (1 / 50, 1 / 100)] (1 / 2)
     = Inr (1 / 100, 1 / 400)"
    by (simp add: segmentPointAtT_def quadraticPointAtT_def Let_def)
  show ?thesis
    apply (simp only: curveCurveIntersections_def One_nat_def ts sum.case)
    apply (simp add: p1)
    done
qed

lemma segmentPointAtT_second_quadratic:
  "segmentPointAtT [(0, 1 / 100), (1 / 100, 1 / 100), (1 / 50, 0)] (1 / 2)
     = Inr (1 / 100, 3 / 400)"
  by (simp add: segmentPointAtT_def quadraticPointAtT_def Let_def)

text \<open>
  C10, as amended. For every pair of curves and every Intersection that
  \<open>curveCurveIntersections\<close> returns, the field \<open>pt\<close> is the first curve evaluated at
  \<open>t1\<close>: \<open>pt = segmentPointAtT(curve1, t1)\<close>, whatever the rectangle operations
  \<open>sect\<close> and \<open>area\<close> and the recursion limit \<open>n\<close> are. The second curve takes no part
  in \<open>pt\<close>, and nothing bounds the distance of \<open>pt\<close> from the second curve at \<open>t2\<close>
  by the precision.
\<close>

theorem curveCurveIntersections_pt:
  assumes "curveCurveIntersections n sect area curve1 curve2 = Inr res"
  shows "\<forall>r \<in> set res. segmentPointAtT curve1 (t1 r) = Inr (pt r)"
proof
  fix r
  assume r: "r \<in> set res"
  define f where "f = (\<lambda>ts :: real \<times> real. case segmentPointAtT curve1 (fst ts) of
              Inl e \<Rightarrow> Inl e
            | Inr p \<Rightarrow> Inr \<lparr>pt = p, t1 = fst ts, t2 = snd ts\<rparr>)"
  obtain tss where m: "map_result f tss = Inr res"
    using assms unfolding curveCurveIntersections_def f_def
    by (cases "curve_curve_intersections_t' n sect area curve1 curve2 (1 / 10 ^ 3)
          None None") simp_all
  obtain ts where ts: "f ts = Inr r"
    using map_result_Inr_set [OF m r] by blast
  show "segmentPointAtT curve1 (t1 r) = Inr (pt r)"
  proof (cases "segmentPointAtT curve1 (fst ts)")
    case (Inl e)
    then show ?thesis using ts by (simp add: f_def)
  next
    case (Inr p)
    then have "r = \<lparr>pt = p, t1 = fst ts, t2 = snd ts\<rparr>"
      using ts by (simp add: f_def)
    then show ?thesis using Inr by simp
  qed
qed

theorem curveCurveIntersections_pt_witness:
  "curveCurveIntersections 1 sectRect rectArea
      [(0, 0), (1 / 100, 0), (1 / 50, 1 / 100)] [(0, 1 / 100), (1 / 100, 1 / 100), (1 / 50, 0)]
     = Inr [\<lparr>pt = (1 / 100, 1 / 400), t1 = 1 / 2, t2 = 1 / 2\<rparr>]
   \<and> segmentPointAtT [(0, 0), (1 / 100, 0), (1 / 50, 1 / 100)] (1 / 2)
     = Inr (1 / 100, 1 / 400)"
proof -
  have u: "segmentPointAtT [(0, 0), (1 / 100, 0), (1 / 50, 1 / 100)] (1 / 2)
     = Inr (1 / 100, 1 / 400)"
    using curveCurveIntersections_pt [OF curveCurveIntersections_two_quadratics] by simp
  show ?thesis
    by (intro conjI curveCurveIntersections_two_quadratics u)
qed

text \<open>
  C10, the claim as stated, fails in its last clause, that \<open>pt\<close> agrees with the second
  curve at \<open>t2\<close> up to the precision parameter. For the two quadratics above the one
  Intersection returned has \<open>pt = (1/100, 1/400)\<close> and \<open>t2 = 1/2\<close>; the second curve at
  \<open>1/2\<close> is \<open>(1/100, 3/400)\<close>, at the distance \<open>1/200\<close> from \<open>pt\<close>, five times the
  precision \<open>1e-3\<close> of the call. The precision bounds the area of the two bounding
  boxes at which the search stops, not a distance.
\<close>

theorem curveCurveIntersections_pt_off_second_curve:
  "curveCurveIntersections 1 sectRect rectArea
      [(0, 0), (1 / 100, 0), (1 / 50, 1 / 100)] [(0, 1 / 100), (1 / 100, 1 / 100), (1 / 50, 0)]
     = Inr [\<lparr>pt = (1 / 100, 1 / 400), t1 = 1 / 2, t2 = 1 / 2\<rparr>]
   \<and> segmentPointAtT [(0, 1 / 100), (1 / 100, 1 / 100), (1 / 50, 0)] (1 / 2)
     = Inr (1 / 100, 3 / 400)
   \<and> (1 / 10 ^ 3 :: real) < \<bar>snd (1 / 100 :: real, 1 / 400 :: real)
                               - snd (1 / 100 :: real, 3 / 400 :: real)\<bar>"
proof (intro conjI)
  show "(1 / 10 ^ 3 :: real) < \<bar>snd (1 / 100 :: real, 1 / 400 :: real)
                               - snd (1 / 100 :: real, 3 / 400 :: real)\<bar>"
    by simp
qed (rule curveCurveIntersections_two_quadratics segmentPointAtT_second_quadratic)+

subsection \<open>Basis conversion\<close>

text \<open>
  C8, as amended. Power-basis conversion round-trips exactly in real arithmetic:
  converting a quadratic control-point triple (or a cubic quadruple) to power-basis
  parameters and back gives the control points again. (In floating point the round
  trip is not within \<open>1e-9\<close>; see below.)
\<close>

theorem basis_round_trip:
  "(case calcQuadraticParameters p1 p2 p3 of (a, b, c) \<Rightarrow> calcQuadraticPoints a b c)
     = (p1, p2, p3)
   \<and> (case calcCubicParameters q1 q2 q3 q4 of (a, b, c, d) \<Rightarrow> calcCubicPoints a b c d)
     = (q1, q2, q3, q4)"
  by (auto simp add: calcQuadraticParameters_def calcQuadraticPoints_def
      calcCubicParameters_def calcCubicPoints_def Let_def field_simps split: prod.splits)

text \<open>
  Evaluation of \<open>double_round\<close>: the exponent is fixed by the binade, and the rest is
  arithmetic on rationals.
\<close>

lemma pow2_powr: "pow2 k = 2 powr (of_int k)"
  by (simp add: pow2_def powr_int)

lemma pow2_pos: "0 < pow2 k"
  by (simp add: pow2_def)

lemma double_exponent_eq:
  assumes "pow2 e \<le> \<bar>x\<bar>" and "\<bar>x\<bar> < pow2 (e + 1)" and "- 1022 \<le> e"
  shows "double_exponent x = e"
proof -
  have x: "0 < \<bar>x\<bar>"
    using assms(1) pow2_pos [of e] by linarith
  have "of_int e \<le> log 2 \<bar>x\<bar>"
    using assms(1) x by (simp add: le_log_iff pow2_powr)
  moreover have "log 2 \<bar>x\<bar> < of_int e + 1"
    using assms(2) x by (simp add: log_less_iff pow2_powr)
  ultimately have "\<lfloor>log 2 \<bar>x\<bar>\<rfloor> = e"
    by (rule floor_unique)
  then show ?thesis
    using assms(3) by (simp add: double_exponent_def)
qed

lemma double_round_eval:
  assumes "pow2 e \<le> \<bar>x\<bar>" and "\<bar>x\<bar> < pow2 (e + 1)" and "- 1022 \<le> e"
    and "r = of_int (round_half_even (x / pow2 (e - 52))) * pow2 (e - 52)"
    and "\<bar>r\<bar> < 2 ^ 1024"
  shows "double_round x = Some r"
proof -
  have "0 < \<bar>x\<bar>"
    using assms(1) pow2_pos [of e] by linarith
  then have "x \<noteq> 0"
    by simp
  then show ?thesis
    using assms(4,5) by (simp add: double_round_def double_exponent_eq [OF assms(1-3)] Let_def)
qed

lemma double_ops_zero:
  "fsub 0 0 = Some 0" "fadd 0 0 = Some 0" "fmul 0 2 = Some 0" "fmul 0 (1 / 2) = Some 0"
  by (simp_all add: fsub_def fadd_def fmul_def double_round_def)

lemma double_ops_cancel: "fadd (- (2 ^ 54)) (2 ^ 54) = Some 0"
  by (simp add: fadd_def double_round_def)

lemma double_ops_parameters:
  "fsub 1 (2 ^ 54) = Some (- (2 ^ 54))"
  "fmul (- (2 ^ 54)) 2 = Some (- (2 ^ 55))"
  "fsub 2 (2 ^ 54) = Some (2 - 2 ^ 54)"
  "fsub (2 - 2 ^ 54) (- (2 ^ 55)) = Some (2 ^ 54)"
  unfolding fsub_def fmul_def
  by (rule double_round_eval [where e = 53], simp_all add: pow2_def round_half_even_def,
      rule double_round_eval [where e = 55], simp_all add: pow2_def round_half_even_def,
      rule double_round_eval [where e = 53], simp_all add: pow2_def round_half_even_def,
      rule double_round_eval [where e = 54], simp_all add: pow2_def round_half_even_def)

lemma double_ops_points:
  "fmul (- (2 ^ 55)) (1 / 2) = Some (- (2 ^ 54))"
  "fadd (2 ^ 54) (- (2 ^ 55)) = Some (- (2 ^ 54))"
  unfolding fadd_def fmul_def
  by (rule double_round_eval [where e = 54], simp_all add: pow2_def round_half_even_def)+

lemma calcQuadraticParameters_double_example:
  "calcQuadraticParameters_double (2 ^ 54, 0) (1, 0) (2, 0)
     = Some ((2 ^ 54, 0), (- (2 ^ 55), 0), (2 ^ 54, 0))"
  unfolding calcQuadraticParameters_double_def
  by (simp only: prod.case double_ops_parameters double_ops_zero Option.bind.simps)

lemma calcQuadraticPoints_double_example:
  "calcQuadraticPoints_double (2 ^ 54, 0) (- (2 ^ 55), 0) (2 ^ 54, 0)
     = Some ((2 ^ 54, 0), (0, 0), (0, 0))"
  unfolding calcQuadraticPoints_double_def
  by (simp only: prod.case double_ops_points double_ops_cancel double_ops_zero
      Option.bind.simps)


text \<open>
  C8, the claim as stated, fails in its floating-point clause. On doubles the control
  points \<open>(2^54, 0), (1, 0), (2, 0)\<close> come back as \<open>(2^54, 0), (0, 0), (0, 0)\<close>:
  \<open>1 - 2^54\<close> and \<open>2^54 + 2\<close> are not doubles and round to \<open>-2^54\<close> and \<open>2^54\<close>,
  so the second and third point are off by \<open>1\<close> and \<open>2\<close>, not by \<open>1e-9\<close>. The error of
  the round trip is relative to the largest coordinate.
\<close>

theorem basis_round_trip_double_off:
  "do {
     (a, b, c) \<leftarrow> calcQuadraticParameters_double (2 ^ 54, 0) (1, 0) (2, 0);
     calcQuadraticPoints_double a b c
   } = Some ((2 ^ 54, 0), (0, 0), (0, 0))
   \<and> (1 / 10 ^ 9 :: real) < \<bar>fst (0 :: real, 0 :: real) - fst (1 :: real, 0 :: real)\<bar>"
proof (intro conjI)
  show "do {
     (a, b, c) \<leftarrow> calcQuadraticParameters_double (2 ^ 54, 0) (1, 0) (2, 0);
     calcQuadraticPoints_double a b c
   } = Some ((2 ^ 54, 0), (0, 0), (0, 0))"
    by (simp only: calcQuadraticParameters_double_example Option.bind.simps prod.case
        calcQuadraticPoints_double_example)
  show "(1 / 10 ^ 9 :: real) < \<bar>fst (0 :: real, 0 :: real) - fst (1 :: real, 0 :: real)\<bar>"
    by simp
qed

end
